theory Spec2Isabelle
  imports Main "HOL-Library.Word"
begin

unbundle bit_operations_syntax

section \<open>SSH client options (session\_client\_ssh.c, session.h)\<close>

text \<open>
  The three SSH authentication types of \<^verbatim>\<open>NC_SSH_AUTH_TYPE\<close> (session.h):
  \<^verbatim>\<open>NC_SSH_AUTH_PUBLICKEY = 0x01, NC_SSH_AUTH_PASSWORD = 0x02, NC_SSH_AUTH_INTERACTIVE = 0x04\<close>.
\<close>

datatype NC_SSH_AUTH_TYPE = NC_SSH_AUTH_PUBLICKEY | NC_SSH_AUTH_PASSWORD | NC_SSH_AUTH_INTERACTIVE

text \<open>
  One entry of the array \<^verbatim>\<open>auth_pref[NC_SSH_AUTH_COUNT]\<close>: the method and its
  preference, a \<^verbatim>\<open>short int\<close> (16 bits, read as two's complement with \<open>sint\<close>).
\<close>

record auth_pref_entry =
  pref_type :: NC_SSH_AUTH_TYPE
  pref_value :: "16 word"

text \<open>A key pair of the option block: the two paths and the encryption flag.\<close>

record ssh_keypair =
  pubkey_path :: string
  privkey_path :: string
  privkey_crypt :: bool

text \<open>
  \<^verbatim>\<open>struct nc_client_ssh_opts\<close>. The fixed-size array \<^verbatim>\<open>auth_pref\<close> is a function
  from the index; the code only ever uses the constant indices 0, 1 and 2.
\<close>

record nc_client_ssh_opts =
  auth_pref :: "nat \<Rightarrow> auth_pref_entry"
  keys :: "ssh_keypair list"
  opt_username :: "string option"

text \<open>The two global option blocks: \<^verbatim>\<open>ssh_opts\<close> and \<^verbatim>\<open>ssh_ch_opts\<close> (Call Home).\<close>

record client_globals =
  ssh_opts :: nc_client_ssh_opts
  ssh_ch_opts :: nc_client_ssh_opts

definition mk_pref :: "NC_SSH_AUTH_TYPE \<Rightarrow> 16 word \<Rightarrow> auth_pref_entry" where
  "mk_pref t v = \<lparr>pref_type = t, pref_value = v\<rparr>"

definition init_ssh_opts :: nc_client_ssh_opts where
  "init_ssh_opts =
     \<lparr>auth_pref = (\<lambda>i. if i = 0 then mk_pref NC_SSH_AUTH_INTERACTIVE 3
                        else if i = 1 then mk_pref NC_SSH_AUTH_PASSWORD 2
                        else mk_pref NC_SSH_AUTH_PUBLICKEY 1),
      keys = [], opt_username = None\<rparr>"

definition init_ssh_ch_opts :: nc_client_ssh_opts where
  "init_ssh_ch_opts =
     \<lparr>auth_pref = (\<lambda>i. if i = 0 then mk_pref NC_SSH_AUTH_INTERACTIVE 1
                        else if i = 1 then mk_pref NC_SSH_AUTH_PASSWORD 2
                        else mk_pref NC_SSH_AUTH_PUBLICKEY 3),
      keys = [], opt_username = None\<rparr>"

definition init_globals :: client_globals where
  "init_globals = \<lparr>ssh_opts = init_ssh_opts, ssh_ch_opts = init_ssh_ch_opts\<rparr>"

text \<open>\<^verbatim>\<open>opts->auth_pref[i].value = pref\<close>\<close>

definition set_pref_value :: "nat \<Rightarrow> 16 word \<Rightarrow> nc_client_ssh_opts \<Rightarrow> nc_client_ssh_opts" where
  "set_pref_value i v opts =
     opts\<lparr>auth_pref := (auth_pref opts)(i := (auth_pref opts i)\<lparr>pref_value := v\<rparr>)\<rparr>"

text \<open>
  \<^verbatim>\<open>_nc_client_ssh_set_auth_pref\<close>: a negative preference is stored as -1; the
  slot is chosen by the type (interactive 0, password 1, publickey 2).
\<close>

definition nc_client_ssh_set_auth_pref_opts ::
  "NC_SSH_AUTH_TYPE \<Rightarrow> 16 word \<Rightarrow> nc_client_ssh_opts \<Rightarrow> nc_client_ssh_opts" where
  "nc_client_ssh_set_auth_pref_opts auth_type pref0 opts =
     (let pref = (if sint pref0 < 0 then - 1 else pref0) in
      if auth_type = NC_SSH_AUTH_INTERACTIVE then set_pref_value 0 pref opts
      else if auth_type = NC_SSH_AUTH_PASSWORD then set_pref_value 1 pref opts
      else if auth_type = NC_SSH_AUTH_PUBLICKEY then set_pref_value 2 pref opts
      else opts)"

text \<open>\<^verbatim>\<open>_nc_client_ssh_get_auth_pref\<close>: 0 unless one of the three branches reads a slot.\<close>

definition nc_client_ssh_get_auth_pref_opts ::
  "NC_SSH_AUTH_TYPE \<Rightarrow> nc_client_ssh_opts \<Rightarrow> 16 word" where
  "nc_client_ssh_get_auth_pref_opts auth_type opts =
     (if auth_type = NC_SSH_AUTH_INTERACTIVE then pref_value (auth_pref opts 0)
      else if auth_type = NC_SSH_AUTH_PASSWORD then pref_value (auth_pref opts 1)
      else if auth_type = NC_SSH_AUTH_PUBLICKEY then pref_value (auth_pref opts 2)
      else 0)"

text \<open>The API functions apply the static helpers to one of the two global blocks.\<close>

definition nc_client_ssh_set_auth_pref ::
  "NC_SSH_AUTH_TYPE \<Rightarrow> 16 word \<Rightarrow> client_globals \<Rightarrow> client_globals" where
  "nc_client_ssh_set_auth_pref auth_type pref g =
     g\<lparr>ssh_opts := nc_client_ssh_set_auth_pref_opts auth_type pref (ssh_opts g)\<rparr>"

definition nc_client_ssh_ch_set_auth_pref ::
  "NC_SSH_AUTH_TYPE \<Rightarrow> 16 word \<Rightarrow> client_globals \<Rightarrow> client_globals" where
  "nc_client_ssh_ch_set_auth_pref auth_type pref g =
     g\<lparr>ssh_ch_opts := nc_client_ssh_set_auth_pref_opts auth_type pref (ssh_ch_opts g)\<rparr>"

definition nc_client_ssh_get_auth_pref :: "NC_SSH_AUTH_TYPE \<Rightarrow> client_globals \<Rightarrow> 16 word" where
  "nc_client_ssh_get_auth_pref auth_type g = nc_client_ssh_get_auth_pref_opts auth_type (ssh_opts g)"

definition nc_client_ssh_ch_get_auth_pref :: "NC_SSH_AUTH_TYPE \<Rightarrow> client_globals \<Rightarrow> 16 word" where
  "nc_client_ssh_ch_get_auth_pref auth_type g =
     nc_client_ssh_get_auth_pref_opts auth_type (ssh_ch_opts g)"

text \<open>The slot of the array that belongs to an authentication type.\<close>

fun pref_slot :: "NC_SSH_AUTH_TYPE \<Rightarrow> nat" where
  "pref_slot NC_SSH_AUTH_INTERACTIVE = 0"
| "pref_slot NC_SSH_AUTH_PASSWORD = 1"
| "pref_slot NC_SSH_AUTH_PUBLICKEY = 2"

section \<open>Collaborators: libssh, the terminal, the resolver\<close>

text \<open>
  The functions of session\_client\_ssh.c call libssh, libc and the DNSSEC validator. Each
  such call is an answer of the outside world; the answers of one run are collected in a
  record, and a function of the model reads the field where the C code makes the call.
  Pointers are addresses (\<open>nat\<close>), \<^verbatim>\<open>NULL\<close> is \<open>None\<close>.
\<close>

type_synonym addr = nat

text \<open>\<^verbatim>\<open>enum ssh_server_known_e\<close>, the result of \<^verbatim>\<open>ssh_is_server_known\<close>.\<close>

datatype ssh_server_known_e =
    SSH_SERVER_ERROR
  | SSH_SERVER_NOT_KNOWN
  | SSH_SERVER_KNOWN_OK
  | SSH_SERVER_KNOWN_CHANGED
  | SSH_SERVER_FOUND_OTHER
  | SSH_SERVER_FILE_NOT_FOUND

text \<open>\<^verbatim>\<open>enum ssh_keytypes_e\<close>, the result of \<^verbatim>\<open>ssh_key_type\<close>.\<close>

datatype ssh_keytypes_e =
    SSH_KEYTYPE_UNKNOWN
  | SSH_KEYTYPE_DSS
  | SSH_KEYTYPE_RSA
  | SSH_KEYTYPE_RSA1
  | SSH_KEYTYPE_ECDSA
  | SSH_KEYTYPE_ED25519

text \<open>\<^verbatim>\<open>enum ssh_auth_e\<close>, the result of the \<^verbatim>\<open>ssh_userauth_*\<close> functions.\<close>

datatype ssh_auth_e =
    SSH_AUTH_SUCCESS
  | SSH_AUTH_DENIED
  | SSH_AUTH_PARTIAL
  | SSH_AUTH_INFO
  | SSH_AUTH_AGAIN
  | SSH_AUTH_ERROR

text \<open>
  The bits of the mask that \<^verbatim>\<open>ssh_userauth_list\<close> returns. The mask is the set of its
  bits: \<^verbatim>\<open>list & M\<close> is \<open>M \<in> list\<close> and \<^verbatim>\<open>list &= ~M\<close> is \<open>list - {M}\<close>.
\<close>

datatype ssh_auth_method =
    SSH_AUTH_METHOD_NONE
  | SSH_AUTH_METHOD_PASSWORD
  | SSH_AUTH_METHOD_PUBLICKEY
  | SSH_AUTH_METHOD_HOSTBASED
  | SSH_AUTH_METHOD_INTERACTIVE
  | SSH_AUTH_METHOD_GSSAPI_MIC

text \<open>\<^verbatim>\<open>SSH_OK\<close> is 0; \<^verbatim>\<open>SSH_ERROR\<close> is -1.\<close>

definition SSH_OK :: int where
  "SSH_OK = 0"

text \<open>
  What the server and libssh answer for one key pair of the option block, in the order
  the publickey branch asks: importing the public key file, offering the key
  (\<^verbatim>\<open>ssh_userauth_try_publickey\<close>), importing the private key file, authenticating
  (\<^verbatim>\<open>ssh_userauth_publickey\<close>).
\<close>

record key_answers =
  import_pubkey_ret :: int
  try_publickey :: ssh_auth_e
  import_privkey_ret :: int
  userauth_publickey :: ssh_auth_e

text \<open>The session status of session.h; the enumerators are numbered 0, 1, 2, 3 in this order.\<close>

datatype NC_STATUS =
    NC_STATUS_STARTING
  | NC_STATUS_CLOSING
  | NC_STATUS_INVALID
  | NC_STATUS_RUNNING

datatype NC_SIDE = NC_CLIENT | NC_SERVER

datatype NC_VERSION = NC_VERSION_10 | NC_VERSION_11

datatype NC_TRANSPORT_IMPL = NC_TI_NONE | NC_TI_FD | NC_TI_LIBSSH | NC_TI_OPENSSL

text \<open>The options that the code sets with \<^verbatim>\<open>ssh_options_set\<close>.\<close>

datatype ssh_options_e =
    SSH_OPTIONS_HOST
  | SSH_OPTIONS_PORT
  | SSH_OPTIONS_USER
  | SSH_OPTIONS_TIMEOUT
  | SSH_OPTIONS_HOSTKEYS
  | SSH_OPTIONS_FD

datatype optval = Str string | Port "16 word" | Num int

text \<open>
  The trace of a run: the calls with an effect outside the process or on the SSH session
  (\<^verbatim>\<open>ssh_write_knownhost\<close>, \<^verbatim>\<open>ssh_options_set\<close>, \<^verbatim>\<open>nc_sock_connect\<close>, the
  \<^verbatim>\<open>ssh_userauth_*\<close> calls of one authentication method, \<^verbatim>\<open>nc_session_free\<close>) and the
  writes of a session's \<^verbatim>\<open>status\<close> field, in program order. \<open>Process_fault\<close> ends the
  trace of a run in which the process dereferences \<^verbatim>\<open>NULL\<close>.
\<close>

datatype event =
    Write_knownhost
  | Options_set ssh_options_e optval
  | Sock_connect string "16 word"
  | Userauth NC_SSH_AUTH_TYPE
  | Status_set addr NC_STATUS
  | Session_free addr
  | Process_fault

text \<open>
  A C function either returns a value or does not return because the process has
  faulted (a \<^verbatim>\<open>NULL\<close> pointer handed to \<^verbatim>\<open>strlen\<close>).
\<close>

datatype 'a run = Returns 'a | Faults

record ssh_env =
  \<comment> \<open>host key check\<close>
  is_server_known :: ssh_server_known_e
  get_publickey_ret :: int
  key_type :: ssh_keytypes_e
  publickey_hash_ret :: int
  ENABLE_DNSSEC :: bool
  dnssec_check :: "string \<Rightarrow> int \<Rightarrow> int \<Rightarrow> int"
  stdin_answers :: "string list"
  \<comment> \<open>SSH connection and authentication\<close>
  ssh_connect_ret :: int
  userauth_none :: ssh_auth_e
  userauth_list :: "ssh_auth_method set"
  password_prompt :: "string option"
  userauth_password :: ssh_auth_e
  userauth_kbdint :: "ssh_auth_e list"
  key_replies :: "nat \<Rightarrow> key_answers"
  channel_new :: "addr option"
  channel_open_ret :: int
  request_subsystem_ret :: int
  \<comment> \<open>session set-up\<close>
  getpwuid_name :: "string option"
  calloc_session :: "addr option"
  malloc_lock :: "addr option"
  ssh_new :: "addr option"
  hostkeys_set_ret :: int
  sock_connect_ret :: int
  ly_ctx_new :: "addr option"
  client_capabilities :: "string list"
  hello_received :: "string list option"
  ctx_check_and_fill_ret :: int
  \<comment> \<open>what an SSH session handed to \<^verbatim>\<open>nc_connect_libssh\<close> already holds\<close>
  get_port :: "16 word"
  get_host :: "string option"
  get_user :: "string option"
  is_connected :: bool

section \<open>Host key check (\<^verbatim>\<open>sshauth_hostkey_check\<close>)\<close>

text \<open>
  The \<^verbatim>\<open>do ... while\<close> loop that asks the user. Each element of the list is what one
  \<^verbatim>\<open>fscanf(stdin, "%4s", answer)\<close> delivers; the end of the list is \<^verbatim>\<open>EOF\<close>, which
  jumps to \<^verbatim>\<open>fail\<close>. On \<^verbatim>\<open>yes\<close> the key is written to the known-hosts file (a failure of
  the write is only logged) and the loop ends; on \<^verbatim>\<open>no\<close> the check fails; any other
  answer asks again.
\<close>

fun ask_user :: "string list \<Rightarrow> int \<times> event list" where
  "ask_user [] = (- 1, [])"
| "ask_user (answer # rest) =
     (if answer = ''yes'' then (0, [Write_knownhost])
      else if answer = ''no'' then (- 1, [])
      else ask_user rest)"

text \<open>
  The value of \<^verbatim>\<open>ret\<close> after the DNSSEC calls: the callback's result for a DSS, RSA or
  ECDSA key (SSHFP type 2, 1, 3; algorithm 1), and for any other key type still the
  result of \<^verbatim>\<open>ssh_get_publickey_hash\<close>, since no branch assigns it.
\<close>

definition dnssec_ret :: "ssh_env \<Rightarrow> string \<Rightarrow> int" where
  "dnssec_ret e hostname =
     (if key_type e = SSH_KEYTYPE_DSS then dnssec_check e hostname 2 1
      else if key_type e = SSH_KEYTYPE_RSA then dnssec_check e hostname 1 1
      else if key_type e = SSH_KEYTYPE_ECDSA then dnssec_check e hostname 3 1
      else publickey_hash_ret e)"

text \<open>The label \<^verbatim>\<open>hostkey_not_known\<close>: the DNSSEC block when compiled in, then the user.\<close>

definition hostkey_not_known :: "ssh_env \<Rightarrow> string \<Rightarrow> int \<times> event list" where
  "hostkey_not_known e hostname =
     (if ENABLE_DNSSEC e
         \<and> (key_type e \<noteq> SSH_KEYTYPE_UNKNOWN \<or> key_type e \<noteq> SSH_KEYTYPE_RSA1)
         \<and> dnssec_ret e hostname = 0
      then (0, [Write_knownhost])
      else ask_user (stdin_answers e))"

definition sshauth_hostkey_check :: "ssh_env \<Rightarrow> string \<Rightarrow> int \<times> event list" where
  "sshauth_hostkey_check e hostname =
     (if get_publickey_ret e < 0 then (- 1, [])
      else if publickey_hash_ret e < 0 then (- 1, [])
      else case is_server_known e of
          SSH_SERVER_KNOWN_OK \<Rightarrow> (0, [])
        | SSH_SERVER_KNOWN_CHANGED \<Rightarrow> (- 1, [])
        | SSH_SERVER_FOUND_OTHER \<Rightarrow> hostkey_not_known e hostname
        | SSH_SERVER_FILE_NOT_FOUND \<Rightarrow> hostkey_not_known e hostname
        | SSH_SERVER_NOT_KNOWN \<Rightarrow> hostkey_not_known e hostname
        | SSH_SERVER_ERROR \<Rightarrow> (- 1, []))"

section \<open>SSH connection and authentication (\<^verbatim>\<open>connect_ssh_session_netconf\<close>)\<close>

text \<open>The bit of the server's list that stands for an authentication type.\<close>

fun method_bit :: "NC_SSH_AUTH_TYPE \<Rightarrow> ssh_auth_method" where
  "method_bit NC_SSH_AUTH_INTERACTIVE = SSH_AUTH_METHOD_INTERACTIVE"
| "method_bit NC_SSH_AUTH_PASSWORD = SSH_AUTH_METHOD_PASSWORD"
| "method_bit NC_SSH_AUTH_PUBLICKEY = SSH_AUTH_METHOD_PUBLICKEY"

text \<open>
  "Remove those disabled": a method whose stored preference is negative is taken out of
  the list before the loop starts.
\<close>

definition remove_disabled ::
  "nc_client_ssh_opts \<Rightarrow> ssh_auth_method set \<Rightarrow> ssh_auth_method set" where
  "remove_disabled opts l0 =
     (let l1 = (if sint (pref_value (auth_pref opts 0)) < 0
                then l0 - {SSH_AUTH_METHOD_INTERACTIVE} else l0);
          l2 = (if sint (pref_value (auth_pref opts 1)) < 0
                then l1 - {SSH_AUTH_METHOD_PASSWORD} else l1)
      in if sint (pref_value (auth_pref opts 2)) < 0
         then l2 - {SSH_AUTH_METHOD_PUBLICKEY} else l2)"

text \<open>
  The head of the \<^verbatim>\<open>while\<close> body: \<^verbatim>\<open>auth = 0; pref = 0;\<close> and the three \<^verbatim>\<open>if\<close>s.
  \<open>None\<close> is \<^verbatim>\<open>auth == 0\<close>. The comparisons are between \<^verbatim>\<open>short int\<close>s, so signed.
\<close>

definition select_auth ::
  "nc_client_ssh_opts \<Rightarrow> ssh_auth_method set \<Rightarrow> NC_SSH_AUTH_TYPE option" where
  "select_auth opts l =
     (let (auth0, pref0) =
            (if SSH_AUTH_METHOD_INTERACTIVE \<in> l
             then (Some NC_SSH_AUTH_INTERACTIVE, pref_value (auth_pref opts 0))
             else (None, 0));
          (auth1, pref1) =
            (if SSH_AUTH_METHOD_PASSWORD \<in> l \<and> sint pref0 < sint (pref_value (auth_pref opts 1))
             then (Some NC_SSH_AUTH_PASSWORD, pref_value (auth_pref opts 1))
             else (auth0, pref0))
      in if SSH_AUTH_METHOD_PUBLICKEY \<in> l \<and> sint pref1 < sint (pref_value (auth_pref opts 2))
         then Some NC_SSH_AUTH_PUBLICKEY
         else auth1)"

text \<open>
  Keyboard-interactive: \<^verbatim>\<open>ssh_userauth_kbdint\<close> is called again as long as it answers
  \<^verbatim>\<open>SSH_AUTH_INFO\<close>. The list holds the server's successive answers; a server that has
  no further answer has dropped the connection, which libssh reports as \<^verbatim>\<open>SSH_AUTH_ERROR\<close>.
\<close>

fun kbdint_loop :: "ssh_auth_e list \<Rightarrow> ssh_auth_e" where
  "kbdint_loop [] = SSH_AUTH_ERROR"
| "kbdint_loop (r # rs) = (if r = SSH_AUTH_INFO then kbdint_loop rs else r)"

text \<open>
  Publickey: the \<^verbatim>\<open>for\<close> loop over the key pairs, with \<^verbatim>\<open>ret_auth\<close> threaded through.
  \<^verbatim>\<open>continue\<close> is the recursive call, \<^verbatim>\<open>break\<close> returns.
\<close>

fun pubkey_loop :: "key_answers list \<Rightarrow> ssh_auth_e \<Rightarrow> ssh_auth_e" where
  "pubkey_loop [] ret_auth = ret_auth"
| "pubkey_loop (k # ks) ret_auth =
     (if import_pubkey_ret k \<noteq> SSH_OK then pubkey_loop ks ret_auth
      else let r = try_publickey k in
        if r = SSH_AUTH_DENIED \<or> r = SSH_AUTH_PARTIAL then pubkey_loop ks r
        else if r = SSH_AUTH_ERROR then r
        else if import_privkey_ret k \<noteq> SSH_OK then pubkey_loop ks r
        else let r2 = userauth_publickey k in
          if r2 = SSH_AUTH_SUCCESS then r2 else pubkey_loop ks r2)"

text \<open>
  The \<^verbatim>\<open>switch (auth)\<close>: the new value of \<^verbatim>\<open>ret_auth\<close>.

  Password: \<^verbatim>\<open>sshauth_password\<close> asks on the terminal and returns \<^verbatim>\<open>NULL\<close> when it
  cannot open or set up the terminal or cannot allocate (\<open>password_prompt\<close> is its
  result). The pointer goes to \<^verbatim>\<open>ssh_userauth_password\<close> unchecked, and when the answer
  is not \<^verbatim>\<open>SSH_AUTH_SUCCESS\<close> the code runs \<^verbatim>\<open>memset(s, 0, strlen(s))\<close>: with a
  \<^verbatim>\<open>NULL\<close> pointer the process faults there.

  Keyboard-interactive and publickey check their prompts' results (\<^verbatim>\<open>if (s)\<close>, the
  result of \<^verbatim>\<open>ssh_userauth_kbdint_setanswer\<close>) and do not fault. The publickey loop
  runs over the indices \<open>0 ..< key_count\<close>; with no key pair \<^verbatim>\<open>ret_auth\<close> keeps its
  value.
\<close>

fun attempt ::
  "ssh_env \<Rightarrow> nc_client_ssh_opts \<Rightarrow> NC_SSH_AUTH_TYPE \<Rightarrow> ssh_auth_e \<Rightarrow> ssh_auth_e run" where
  "attempt e opts NC_SSH_AUTH_PASSWORD ret_auth =
     (if password_prompt e = None \<and> userauth_password e \<noteq> SSH_AUTH_SUCCESS then Faults
      else Returns (userauth_password e))"
| "attempt e opts NC_SSH_AUTH_INTERACTIVE ret_auth = Returns (kbdint_loop (userauth_kbdint e))"
| "attempt e opts NC_SSH_AUTH_PUBLICKEY ret_auth =
     Returns (pubkey_loop (map (key_replies e) [0 ..< length (keys opts)]) ret_auth)"

lemma select_auth_offered:
  "select_auth opts l = Some a \<Longrightarrow> method_bit a \<in> l"
  by (auto simp: select_auth_def Let_def split: if_splits)

text \<open>
  The \<^verbatim>\<open>while (ret_auth != SSH_AUTH_SUCCESS)\<close> loop. The result is the final
  \<^verbatim>\<open>ret_auth\<close>, or the fault that ended the run, and the rounds in order: the list as it
  stood when the round began and the method that was tried. Each round removes the tried
  method from the list.
\<close>

function auth_loop ::
  "ssh_env \<Rightarrow> nc_client_ssh_opts \<Rightarrow> ssh_auth_method set \<Rightarrow> ssh_auth_e
     \<Rightarrow> (ssh_auth_method set \<times> NC_SSH_AUTH_TYPE) list \<times> ssh_auth_e run" where
  "auth_loop e opts l ret_auth =
     (if ret_auth = SSH_AUTH_SUCCESS then ([], Returns ret_auth)
      else case select_auth opts l of
          None \<Rightarrow> ([], Returns ret_auth)
        | Some a \<Rightarrow>
            (case attempt e opts a ret_auth of
               Faults \<Rightarrow> ([(l, a)], Faults)
             | Returns ret_auth' \<Rightarrow>
                 (let r = auth_loop e opts (l - {method_bit a}) ret_auth'
                  in ((l, a) # fst r, snd r))))"
  by pat_completeness auto

termination
proof (relation "measure (\<lambda>(e, opts, l, ret_auth).
    card (l \<inter> {SSH_AUTH_METHOD_INTERACTIVE, SSH_AUTH_METHOD_PASSWORD, SSH_AUTH_METHOD_PUBLICKEY}))")
  show "wf (measure (\<lambda>(e, opts, l, ret_auth).
    card (l \<inter> {SSH_AUTH_METHOD_INTERACTIVE, SSH_AUTH_METHOD_PASSWORD, SSH_AUTH_METHOD_PUBLICKEY})))"
    by simp
next
  fix e :: ssh_env and opts :: nc_client_ssh_opts and l :: "ssh_auth_method set"
    and ret_auth ret_auth' :: ssh_auth_e and a :: NC_SSH_AUTH_TYPE
  let ?F = "{SSH_AUTH_METHOD_INTERACTIVE, SSH_AUTH_METHOD_PASSWORD, SSH_AUTH_METHOD_PUBLICKEY}"
  assume "select_auth opts l = Some a"
  then have inl: "method_bit a \<in> l" by (rule select_auth_offered)
  have inF: "method_bit a \<in> ?F" by (cases a) simp_all
  have fin: "finite (l \<inter> ?F)" by simp
  have eq: "(l - {method_bit a}) \<inter> ?F = (l \<inter> ?F) - {method_bit a}" by blast
  have "card ((l \<inter> ?F) - {method_bit a}) < card (l \<inter> ?F)"
    using fin inl inF by (intro card_Diff1_less) simp_all
  then show "((e, opts, l - {method_bit a}, ret_auth'), (e, opts, l, ret_auth))
      \<in> measure (\<lambda>(e, opts, l, ret_auth). card (l \<inter> ?F))"
    using eq by simp
qed

declare auth_loop.simps [simp del]

text \<open>The \<^verbatim>\<open>ssh_userauth_*\<close> calls of the rounds, as events of the trace.\<close>

fun auth_events :: "(ssh_auth_method set \<times> NC_SSH_AUTH_TYPE) list \<Rightarrow> event list" where
  "auth_events [] = []"
| "auth_events ((l, a) # rs) = Userauth a # auth_events rs"

text \<open>The outcome of \<^verbatim>\<open>connect_ssh_session_netconf\<close>.\<close>

record connect_result =
  cr_ret :: "int run"
  cr_channel :: "addr option"
  cr_rounds :: "(ssh_auth_method set \<times> NC_SSH_AUTH_TYPE) list"
  cr_events :: "event list"

text \<open>
  \<^verbatim>\<open>connect_ssh_session_netconf\<close>: connect, check the host key, try \<^verbatim>\<open>none\<close>, then the
  loop over the methods, then the channel with the \<^verbatim>\<open>netconf\<close> subsystem. The
  preferences and the key pairs are always read from the global \<^verbatim>\<open>ssh_opts\<close>, whoever
  the caller is. The function returns 0 (\<^verbatim>\<open>EXIT_SUCCESS\<close>) or -1, or the process faults
  in the password round; the channel is \<^verbatim>\<open>NULL\<close> unless the function succeeds.
\<close>

definition connect_ssh_session_netconf ::
  "ssh_env \<Rightarrow> client_globals \<Rightarrow> string \<Rightarrow> connect_result" where
  "connect_ssh_session_netconf e g host =
     (if ssh_connect_ret e \<noteq> SSH_OK
      then \<lparr>cr_ret = Returns (- 1), cr_channel = None, cr_rounds = [], cr_events = []\<rparr>
      else let hk = sshauth_hostkey_check e host in
        if fst hk \<noteq> 0
        then \<lparr>cr_ret = Returns (- 1), cr_channel = None, cr_rounds = [], cr_events = snd hk\<rparr>
        else if userauth_none e = SSH_AUTH_ERROR
        then \<lparr>cr_ret = Returns (- 1), cr_channel = None, cr_rounds = [], cr_events = snd hk\<rparr>
        else let lp = auth_loop e (ssh_opts g) (remove_disabled (ssh_opts g) (userauth_list e))
                        (userauth_none e);
                 evs = snd hk @ auth_events (fst lp) in
          if snd lp = Faults
          then \<lparr>cr_ret = Faults, cr_channel = None, cr_rounds = fst lp, cr_events = evs\<rparr>
          else if snd lp \<noteq> Returns SSH_AUTH_SUCCESS
          then \<lparr>cr_ret = Returns (- 1), cr_channel = None, cr_rounds = fst lp, cr_events = evs\<rparr>
          else if channel_open_ret e \<noteq> SSH_OK
          then \<lparr>cr_ret = Returns (- 1), cr_channel = None, cr_rounds = fst lp, cr_events = evs\<rparr>
          else if request_subsystem_ret e \<noteq> SSH_OK
          then \<lparr>cr_ret = Returns (- 1), cr_channel = None, cr_rounds = fst lp, cr_events = evs\<rparr>
          else \<lparr>cr_ret = Returns 0, cr_channel = channel_new e, cr_rounds = fst lp,
                 cr_events = evs\<rparr>)"

section \<open>Sessions (session\_p.h)\<close>

text \<open>
  \<^verbatim>\<open>struct nc_session\<close>, with the \<^verbatim>\<open>libssh\<close> member of the union \<^verbatim>\<open>ti\<close>. The
  counter \<^verbatim>\<open>msgid\<close> is a \<^verbatim>\<open>uint64_t\<close>, \<^verbatim>\<open>port\<close> a \<^verbatim>\<open>uint16_t\<close>, \<^verbatim>\<open>flags\<close> a \<^verbatim>\<open>uint8_t\<close>.
\<close>

record nc_session =
  status :: NC_STATUS
  side :: NC_SIDE
  version :: NC_VERSION
  ti_type :: NC_TRANSPORT_IMPL
  ti_lock :: "addr option"
  libssh_channel :: "addr option"
  libssh_session :: "addr option"
  libssh_next :: "addr option"
  username :: "string option"
  host :: "string option"
  port :: "16 word"
  ctx :: "addr option"
  flags :: "8 word"
  msgid :: "64 word"

text \<open>
  What \<^verbatim>\<open>calloc(1, sizeof *session)\<close> returns: every byte zero, so every enumeration
  is at its first enumerator, every pointer is \<^verbatim>\<open>NULL\<close> and every number is 0.
\<close>

definition calloc_nc_session :: nc_session where
  "calloc_nc_session =
     \<lparr>status = NC_STATUS_STARTING, side = NC_CLIENT, version = NC_VERSION_10,
      ti_type = NC_TI_NONE, ti_lock = None, libssh_channel = None, libssh_session = None,
      libssh_next = None, username = None, host = None, port = 0, ctx = None, flags = 0,
      msgid = 0\<rparr>"

text \<open>The store of sessions: the sessions that are allocated, by address.\<close>

type_synonym heap = "addr \<rightharpoonup> nc_session"

definition NC_SESSION_SHAREDCTX :: "8 word" where
  "NC_SESSION_SHAREDCTX = 1"

definition NC_SSH_TIMEOUT :: int where
  "NC_SSH_TIMEOUT = 10"

text \<open>
  Modelled from the spec: the macro \<^verbatim>\<open>NC_PORT_SSH\<close>, whose definition is not in these
  sources. "Default ports. SSH: 830."
\<close>

definition NC_PORT_SSH :: "16 word" where
  "NC_PORT_SSH = 830"

text \<open>
  Modelled from the spec: the macro \<^verbatim>\<open>strisempty\<close>, whose definition is not in these
  sources either. The specification does not describe it; it is taken by its name: the
  string has no character.
\<close>

definition strisempty :: "string \<Rightarrow> bool" where
  "strisempty s = (s = [])"

section \<open>The hello exchange and the message-id, from the specification\<close>

text \<open>The two base capabilities of section 6 of the specification.\<close>

definition base_1_0 :: string where
  "base_1_0 = ''urn:ietf:params:netconf:base:1.0''"

definition base_1_1 :: string where
  "base_1_1 = ''urn:ietf:params:netconf:base:1.1''"

datatype handshake_error = Unsupported_version | Transport_error

text \<open>
  Modelled from the spec: the version negotiation inside \<^verbatim>\<open>nc_handshake\<close>, which
  session\_p.h declares and these sources do not define. "Negotiate version: v1.1 if both
  advertise base:1.1, else v1.0, else handshake fails with unsupported-version", and
  "else v1.0 if both include base:1.0". An advertisement is the list of capability URIs.
\<close>

definition negotiate_version :: "string list \<Rightarrow> string list \<Rightarrow> handshake_error + NC_VERSION" where
  "negotiate_version A_client A_server =
     (if base_1_1 \<in> set A_client \<and> base_1_1 \<in> set A_server then Inr NC_VERSION_11
      else if base_1_0 \<in> set A_client \<and> base_1_0 \<in> set A_server then Inr NC_VERSION_10
      else Inl Unsupported_version)"

text \<open>
  Modelled from the spec: the outcome of the hello exchange of \<^verbatim>\<open>nc_handshake\<close>. "Each
  side sends its capability list"; the peer's hello may not arrive (\<open>None\<close>, a transport
  error), and when it arrives the version is negotiated.
\<close>

definition nc_handshake_result ::
  "string list \<Rightarrow> string list option \<Rightarrow> handshake_error + NC_VERSION" where
  "nc_handshake_result A_client received =
     (case received of
        None \<Rightarrow> Inl Transport_error
      | Some A_server \<Rightarrow> negotiate_version A_client A_server)"

text \<open>
  Modelled from the spec: \<^verbatim>\<open>nc_handshake\<close> itself, declared in session\_p.h and defined
  outside these sources. The negotiated version is stored in the session; the
  declaration documents the result: "0 on success, non-zero on failure".
\<close>

definition nc_handshake :: "ssh_env \<Rightarrow> nc_session \<Rightarrow> int \<times> nc_session" where
  "nc_handshake e s =
     (case nc_handshake_result (client_capabilities e) (hello_received e) of
        Inl err \<Rightarrow> (1, s)
      | Inr v \<Rightarrow> (0, s\<lparr>version := v\<rparr>))"



section \<open>Connecting (\<^verbatim>\<open>nc_connect_ssh\<close>, \<^verbatim>\<open>nc_connect_libssh\<close>, \<^verbatim>\<open>nc_connect_ssh_channel\<close>)\<close>

text \<open>
  The result of a connect function: the returned pointer, the store and the trace.
  The label \<^verbatim>\<open>fail\<close> calls \<^verbatim>\<open>nc_session_free\<close>, which is not in these sources: the
  model records the call, takes the session out of the store and returns \<^verbatim>\<open>NULL\<close>.
  When the process faults during authentication no pointer is returned and the store is
  what the caller had; the trace ends with \<open>Process_fault\<close>.
\<close>

type_synonym connect_outcome = "addr option \<times> heap \<times> event list"

definition fail_free :: "heap \<Rightarrow> addr \<Rightarrow> event list \<Rightarrow> connect_outcome" where
  "fail_free h a evs = (None, h(a := None), evs @ [Session_free a])"

definition faulted :: "heap \<Rightarrow> event list \<Rightarrow> connect_outcome" where
  "faulted h evs = (None, h, evs @ [Process_fault])"

definition hostkeys_rich :: string where
  "hostkeys_rich =
     ''ssh-ed25519,ecdsa-sha2-nistp521,ecdsa-sha2-nistp384,ecdsa-sha2-nistp256,ssh-rsa,ssh-dss,ssh-rsa1''"

definition hostkeys_reduced :: string where
  "hostkeys_reduced = ''ssh-ed25519,ssh-rsa,ssh-dss,ssh-rsa1''"

text \<open>
  The \<^verbatim>\<open>if (ssh_options_set(..., SSH_OPTIONS_HOSTKEYS, ...))\<close> statement, the same text in
  \<^verbatim>\<open>nc_connect_ssh\<close> and in \<^verbatim>\<open>nc_accept_callhome_sock_ssh\<close>: the second call is made when
  the first returns non-zero.
\<close>

definition set_hostkeys :: "ssh_env \<Rightarrow> event list" where
  "set_hostkeys e =
     (if hostkeys_set_ret e \<noteq> 0
      then [Options_set SSH_OPTIONS_HOSTKEYS (Str hostkeys_rich),
            Options_set SSH_OPTIONS_HOSTKEYS (Str hostkeys_reduced)]
      else [Options_set SSH_OPTIONS_HOSTKEYS (Str hostkeys_rich)])"

text \<open>
  The block that all three connect functions repeat: assign the context (a new one when
  the caller gave none, else the caller's with the shared flag), run the handshake, and
  on success set the status to running. The boolean is "the handshake returned 0".
\<close>

definition ctx_and_handshake ::
  "ssh_env \<Rightarrow> addr \<Rightarrow> addr option \<Rightarrow> nc_session \<Rightarrow> bool \<times> nc_session \<times> event list" where
  "ctx_and_handshake e a ctx_arg s =
     (let s1 = (if ctx_arg = None then s\<lparr>ctx := ly_ctx_new e\<rparr>
                else s\<lparr>flags := flags s OR NC_SESSION_SHAREDCTX, ctx := ctx_arg\<rparr>);
          hs = nc_handshake e s1
      in if fst hs \<noteq> 0 then (False, snd hs, [])
         else (True, (snd hs)\<lparr>status := NC_STATUS_RUNNING\<rparr>, [Status_set a NC_STATUS_RUNNING]))"

text \<open>The user name: the configured one, else the one of the process's user.\<close>

definition default_username :: "ssh_env \<Rightarrow> nc_client_ssh_opts \<Rightarrow> string option" where
  "default_username e opts =
     (case opt_username opts of None \<Rightarrow> getpwuid_name e | Some u \<Rightarrow> Some u)"

text \<open>"Process parameters" of \<^verbatim>\<open>nc_connect_ssh\<close>.\<close>

definition effective_host :: "string option \<Rightarrow> string" where
  "effective_host host_arg =
     (case host_arg of
        None \<Rightarrow> ''localhost''
      | Some s \<Rightarrow> if strisempty s then ''localhost'' else s)"

definition effective_port :: "16 word \<Rightarrow> 16 word" where
  "effective_port port_arg = (if port_arg = 0 then NC_PORT_SSH else port_arg)"

definition nc_connect_ssh ::
  "ssh_env \<Rightarrow> client_globals \<Rightarrow> heap \<Rightarrow> string option \<Rightarrow> 16 word \<Rightarrow> addr option
     \<Rightarrow> connect_outcome" where
  "nc_connect_ssh e g h host_arg port_arg ctx_arg =
     (let hst = effective_host host_arg; prt = effective_port port_arg in
      case default_username e (ssh_opts g) of
        None \<Rightarrow> (None, h, [])
      | Some usr \<Rightarrow>
      (case calloc_session e of
        None \<Rightarrow> (None, h, [])
      | Some a \<Rightarrow>
        let s0 = calloc_nc_session\<lparr>status := NC_STATUS_STARTING, side := NC_CLIENT\<rparr>;
            ev0 = [Status_set a NC_STATUS_STARTING]
        in if malloc_lock e = None then fail_free h a ev0
        else let s1 = s0\<lparr>ti_lock := malloc_lock e, ti_type := NC_TI_LIBSSH,
                          libssh_session := ssh_new e\<rparr>
        in if ssh_new e = None then fail_free h a ev0
        else let ev1 = ev0 @ [Options_set SSH_OPTIONS_HOST (Str hst),
                              Options_set SSH_OPTIONS_PORT (Port prt),
                              Options_set SSH_OPTIONS_USER (Str usr),
                              Options_set SSH_OPTIONS_TIMEOUT (Num NC_SSH_TIMEOUT)]
                           @ set_hostkeys e @ [Sock_connect hst prt]
        in if sock_connect_ret e = - 1 then fail_free h a ev1
        else let s2 = s1\<lparr>host := Some hst, username := Some usr\<rparr>;
                 cr = connect_ssh_session_netconf e g hst;
                 s3 = s2\<lparr>libssh_channel := cr_channel cr\<rparr>;
                 ev2 = ev1 @ [Options_set SSH_OPTIONS_FD (Num (sock_connect_ret e))] @ cr_events cr
        in if cr_ret cr = Faults then faulted h ev2
        else if cr_ret cr \<noteq> Returns 0 then fail_free h a ev2
        else let hs = ctx_and_handshake e a ctx_arg s3;
                 ev3 = ev2 @ snd (snd hs)
        in if \<not> fst hs then fail_free h a ev3
        else if ctx_check_and_fill_ret e = - 1 then fail_free h a ev3
        else (Some a,
              h(a \<mapsto> (fst (snd hs))\<lparr>host := Some hst, port := prt, username := Some usr\<rparr>),
              ev3)))"

text \<open>
  \<^verbatim>\<open>nc_connect_libssh\<close>: the caller hands over an SSH session. Its host, port and user
  are read back from libssh. The function has two conditional blocks, modelled one by
  one. The first: without a host the function sets \<^verbatim>\<open>localhost\<close> and connects a socket
  to it. The result is the host, the events, and "the block did not jump to \<^verbatim>\<open>fail\<close>".
\<close>

definition libssh_host_block :: "ssh_env \<Rightarrow> string \<times> event list \<times> bool" where
  "libssh_host_block e =
     (case get_host e of
        Some s \<Rightarrow> (s, [], True)
      | None \<Rightarrow>
          if sock_connect_ret e = - 1
          then (''localhost'',
                [Options_set SSH_OPTIONS_HOST (Str ''localhost''),
                 Sock_connect ''localhost'' (get_port e)], False)
          else (''localhost'',
                [Options_set SSH_OPTIONS_HOST (Str ''localhost''),
                 Sock_connect ''localhost'' (get_port e),
                 Options_set SSH_OPTIONS_FD (Num (sock_connect_ret e))], True))"

text \<open>
  The second block: an SSH session that is not connected yet gets a user name (the one
  it has, else the default one) and is connected and authenticated, which also opens the
  channel. The result is the user name, the channel, the events, and how the block ends:
  \<open>Returns 0\<close> when control goes on behind it, \<open>Returns (- 1)\<close> for the jump to
  \<^verbatim>\<open>fail\<close>, \<open>Faults\<close> when the process faulted during authentication. A session that is
  connected already skips the block: the channel stays the \<^verbatim>\<open>NULL\<close> of \<^verbatim>\<open>calloc\<close>,
  since the only \<^verbatim>\<open>ssh_channel_new\<close> of this path is in \<^verbatim>\<open>connect_ssh_session_netconf\<close>.
\<close>

definition libssh_auth_block ::
  "ssh_env \<Rightarrow> client_globals \<Rightarrow> string
     \<Rightarrow> string option \<times> addr option \<times> event list \<times> int run" where
  "libssh_auth_block e g hst =
     (if is_connected e then (get_user e, None, [], Returns 0)
      else case get_user e of
          Some u \<Rightarrow>
            (let cr = connect_ssh_session_netconf e g hst
             in (Some u, cr_channel cr, cr_events cr, cr_ret cr))
        | None \<Rightarrow>
            (case default_username e (ssh_opts g) of
               None \<Rightarrow> (None, None, [], Returns (- 1))
             | Some u \<Rightarrow>
                 (let cr = connect_ssh_session_netconf e g hst
                  in (Some u, cr_channel cr,
                      Options_set SSH_OPTIONS_USER (Str u) # cr_events cr, cr_ret cr))))"

definition nc_connect_libssh ::
  "ssh_env \<Rightarrow> client_globals \<Rightarrow> heap \<Rightarrow> addr option \<Rightarrow> addr option \<Rightarrow> connect_outcome" where
  "nc_connect_libssh e g h ssh_session ctx_arg =
     (if ssh_session = None then (None, h, [])
      else case calloc_session e of
        None \<Rightarrow> (None, h, [])
      | Some a \<Rightarrow>
        let s0 = calloc_nc_session\<lparr>status := NC_STATUS_STARTING, side := NC_CLIENT\<rparr>;
            ev0 = [Status_set a NC_STATUS_STARTING]
        in if malloc_lock e = None then fail_free h a ev0
        else let s1 = s0\<lparr>ti_lock := malloc_lock e, ti_type := NC_TI_LIBSSH,
                          libssh_session := ssh_session\<rparr>;
                 prt = get_port e;
                 hb = libssh_host_block e;
                 hst = fst hb;
                 ev1 = ev0 @ fst (snd hb)
        in if \<not> snd (snd hb) then fail_free h a ev1
        else let ab = libssh_auth_block e g hst;
                 usr = fst ab;
                 ev2 = ev1 @ fst (snd (snd ab));
                 s2 = s1\<lparr>libssh_channel := fst (snd ab)\<rparr>
        in if snd (snd (snd ab)) = Faults then faulted h ev2
        else if snd (snd (snd ab)) \<noteq> Returns 0 then fail_free h a ev2
        else let hs = ctx_and_handshake e a ctx_arg s2;
                 ev3 = ev2 @ snd (snd hs)
        in if \<not> fst hs then fail_free h a ev3
        else if ctx_check_and_fill_ret e = - 1 then fail_free h a ev3
        else (Some a,
              h(a \<mapsto> (fst (snd hs))\<lparr>host := Some hst,
                                       port := (if prt \<noteq> 0 then prt else port (fst (snd hs))),
                                       username := usr\<rparr>),
              ev3))"

text \<open>
  \<^verbatim>\<open>nc_connect_ssh_channel\<close>: a further NETCONF session on the SSH session of
  \<^verbatim>\<open>session\<close>. The new session takes over the lock and the SSH session of the argument,
  opens its own channel, and is linked in behind the argument: into a ring of two when the
  argument had no sibling, else between the argument and its old successor. The argument
  must point to an allocated session; anything else is outside C's defined behaviour and
  the model returns \<^verbatim>\<open>NULL\<close> without touching the store.
\<close>

definition nc_connect_ssh_channel ::
  "ssh_env \<Rightarrow> heap \<Rightarrow> addr option \<Rightarrow> addr option \<Rightarrow> connect_outcome" where
  "nc_connect_ssh_channel e h session ctx_arg =
     (case session of
        None \<Rightarrow> (None, h, [])
      | Some sa \<Rightarrow>
      (case h sa of
        None \<Rightarrow> (None, h, [])
      | Some sess \<Rightarrow>
      (case calloc_session e of
        None \<Rightarrow> (None, h, [])
      | Some n \<Rightarrow>
        let s0 = calloc_nc_session\<lparr>status := NC_STATUS_STARTING, side := NC_CLIENT,
                   ti_type := NC_TI_LIBSSH, ti_lock := ti_lock sess,
                   libssh_session := libssh_session sess,
                   libssh_channel := channel_new e\<rparr>;
            ev0 = [Status_set n NC_STATUS_STARTING]
        in if channel_open_ret e \<noteq> SSH_OK then fail_free h n ev0
        else if request_subsystem_ret e \<noteq> SSH_OK then fail_free h n ev0
        else let hs = ctx_and_handshake e n ctx_arg s0;
                 ev1 = ev0 @ snd (snd hs)
        in if \<not> fst hs then fail_free h n ev1
        else if ctx_check_and_fill_ret e = - 1 then fail_free h n ev1
        else let s1 = (fst (snd hs))\<lparr>host := host sess, port := port sess,
                                      username := username sess\<rparr>
        in (case libssh_next sess of
              None \<Rightarrow>
                (Some n,
                 h(sa \<mapsto> sess\<lparr>libssh_next := Some n\<rparr>, n \<mapsto> s1\<lparr>libssh_next := Some sa\<rparr>),
                 ev1)
            | Some ptr \<Rightarrow>
                (Some n,
                 h(sa \<mapsto> sess\<lparr>libssh_next := Some n\<rparr>, n \<mapsto> s1\<lparr>libssh_next := Some ptr\<rparr>),
                 ev1)))))"

text \<open>
  \<^verbatim>\<open>nc_accept_callhome_sock_ssh\<close>: a fresh SSH session on the accepted socket, with the
  Call Home user name, then \<^verbatim>\<open>nc_connect_libssh\<close>. Of the Call Home options
  (\<^verbatim>\<open>ssh_ch_opts\<close>) only the user name is read, here; the authentication behind
  \<^verbatim>\<open>nc_connect_libssh\<close> reads \<^verbatim>\<open>ssh_opts\<close>.
\<close>

definition nc_accept_callhome_sock_ssh ::
  "ssh_env \<Rightarrow> client_globals \<Rightarrow> heap \<Rightarrow> int \<Rightarrow> string \<Rightarrow> 16 word \<Rightarrow> addr option
     \<Rightarrow> connect_outcome" where
  "nc_accept_callhome_sock_ssh e g h sock host_arg port_arg ctx_arg =
     (if ssh_new e = None then (None, h, [])
      else let ev0 = [Options_set SSH_OPTIONS_FD (Num sock),
                      Options_set SSH_OPTIONS_HOST (Str host_arg),
                      Options_set SSH_OPTIONS_PORT (Port port_arg),
                      Options_set SSH_OPTIONS_TIMEOUT (Num NC_SSH_TIMEOUT)]
      in case default_username e (ssh_ch_opts g) of
        None \<Rightarrow> (None, h, ev0)
      | Some usr \<Rightarrow>
        let ev1 = ev0 @ [Options_set SSH_OPTIONS_USER (Str usr)] @ set_hostkeys e;
            r = nc_connect_libssh e g h (ssh_new e) ctx_arg
        in (fst r, fst (snd r), ev1 @ snd (snd r)))"

text \<open>The observations that the theorems speak about.\<close>

fun status_writes :: "addr \<Rightarrow> event list \<Rightarrow> NC_STATUS list" where
  "status_writes a [] = []"
| "status_writes a (Status_set b st # evs) =
     (if a = b then st # status_writes a evs else status_writes a evs)"
| "status_writes a (ev # evs) = status_writes a evs"

fun hostkeys_set :: "event list \<Rightarrow> optval list" where
  "hostkeys_set [] = []"
| "hostkeys_set (Options_set SSH_OPTIONS_HOSTKEYS v # evs) = v # hostkeys_set evs"
| "hostkeys_set (ev # evs) = hostkeys_set evs"

fun sock_connects :: "event list \<Rightarrow> (string \<times> 16 word) list" where
  "sock_connects [] = []"
| "sock_connects (Sock_connect hst prt # evs) = (hst, prt) # sock_connects evs"
| "sock_connects (ev # evs) = sock_connects evs"

fun userauths :: "event list \<Rightarrow> NC_SSH_AUTH_TYPE list" where
  "userauths [] = []"
| "userauths (Userauth t # evs) = t # userauths evs"
| "userauths (ev # evs) = userauths evs"

text \<open>
  The order of the life cycle that the specification names:
  starting, running, closing, invalid.
\<close>

fun lifecycle_rank :: "NC_STATUS \<Rightarrow> nat" where
  "lifecycle_rank NC_STATUS_STARTING = 0"
| "lifecycle_rank NC_STATUS_RUNNING = 1"
| "lifecycle_rank NC_STATUS_CLOSING = 2"
| "lifecycle_rank NC_STATUS_INVALID = 3"

text \<open>The preference of an authentication type, as the signed number the code compares.\<close>

definition pref_of :: "nc_client_ssh_opts \<Rightarrow> NC_SSH_AUTH_TYPE \<Rightarrow> int" where
  "pref_of opts t = sint (pref_value (auth_pref opts (pref_slot t)))"

text \<open>
  The sibling links. \<open>next_of\<close> follows \<^verbatim>\<open>ti.libssh.next\<close>; \<open>path h a xs b\<close> says that the
  links lead from \<open>a\<close> through exactly the sessions \<open>xs\<close> to \<open>b\<close>; a ring is a path from a
  session back to itself through distinct sessions; \<open>reaches\<close> is "some number of links".
\<close>

definition next_of :: "heap \<Rightarrow> addr \<Rightarrow> addr option" where
  "next_of h a = (case h a of None \<Rightarrow> None | Some s \<Rightarrow> libssh_next s)"

fun path :: "heap \<Rightarrow> addr \<Rightarrow> addr list \<Rightarrow> addr \<Rightarrow> bool" where
  "path h a [] b = (next_of h a = Some b)"
| "path h a (x # xs) b = (next_of h a = Some x \<and> path h x xs b)"

definition ring :: "heap \<Rightarrow> addr list \<Rightarrow> bool" where
  "ring h xs = (case xs of [] \<Rightarrow> False | a # ys \<Rightarrow> distinct xs \<and> path h a ys a)"

inductive reaches :: "heap \<Rightarrow> addr \<Rightarrow> addr \<Rightarrow> bool" for h :: heap where
  reaches_refl: "reaches h a a"
| reaches_step: "next_of h a = Some b \<Longrightarrow> reaches h b c \<Longrightarrow> reaches h a c"

text \<open>
  The rounds of the authentication loop hang together: the first round starts from the
  given list, and each later round from the list of the round before, without the method
  tried there.
\<close>

fun chained :: "ssh_auth_method set \<Rightarrow> (ssh_auth_method set \<times> NC_SSH_AUTH_TYPE) list \<Rightarrow> bool" where
  "chained l [] = True"
| "chained l ((l', a) # rs) = (l' = l \<and> chained (l - {method_bit a}) rs)"

text \<open>
  Two properties of the outcome of a connect function. The writes to the status of a
  session are none, \<open>starting\<close>, or \<open>starting\<close> and then \<open>running\<close>, the latter only
  with a successful handshake. A returned session is in the store, is running, carries
  the negotiated version, and its status went from \<open>starting\<close> to \<open>running\<close>.
\<close>

definition trace_shape :: "ssh_env \<Rightarrow> addr \<Rightarrow> connect_outcome \<Rightarrow> bool" where
  "trace_shape e x r =
     (status_writes x (snd (snd r)) = [] \<or> status_writes x (snd (snd r)) = [NC_STATUS_STARTING]
      \<or> status_writes x (snd (snd r)) = [NC_STATUS_STARTING, NC_STATUS_RUNNING]
        \<and> (\<exists>v. nc_handshake_result (client_capabilities e) (hello_received e) = Inr v))"

definition created_running :: "ssh_env \<Rightarrow> connect_outcome \<Rightarrow> bool" where
  "created_running e r =
     (\<forall>a. fst r = Some a \<longrightarrow>
        (\<exists>s. fst (snd r) a = Some s \<and> status s = NC_STATUS_RUNNING
           \<and> nc_handshake_result (client_capabilities e) (hello_received e) = Inr (version s)
           \<and> status_writes a (snd (snd r)) = [NC_STATUS_STARTING, NC_STATUS_RUNNING]))"

section \<open>A sample run\<close>

text \<open>
  One run of the outside world, for the examples: the server's key is in the known-hosts
  file, \<^verbatim>\<open>none\<close> is denied, the server offers all three methods, denies
  keyboard-interactive and accepts the password that the user types; both sides advertise both base
  capabilities; every allocation succeeds.
\<close>

definition sample_env :: ssh_env where
  "sample_env =
     \<lparr>is_server_known = SSH_SERVER_KNOWN_OK, get_publickey_ret = 0,
      key_type = SSH_KEYTYPE_RSA, publickey_hash_ret = 0, ENABLE_DNSSEC = False,
      dnssec_check = (\<lambda>hostname t alg. 2), stdin_answers = [],
      ssh_connect_ret = 0, userauth_none = SSH_AUTH_DENIED,
      userauth_list = {SSH_AUTH_METHOD_PASSWORD, SSH_AUTH_METHOD_PUBLICKEY,
                       SSH_AUTH_METHOD_INTERACTIVE},
      password_prompt = Some ''secret'',
      userauth_password = SSH_AUTH_SUCCESS, userauth_kbdint = [SSH_AUTH_DENIED],
      key_replies = (\<lambda>j. \<lparr>import_pubkey_ret = 0, try_publickey = SSH_AUTH_DENIED,
                             import_privkey_ret = 0, userauth_publickey = SSH_AUTH_DENIED\<rparr>),
      channel_new = Some 7, channel_open_ret = 0, request_subsystem_ret = 0,
      getpwuid_name = Some ''admin'', calloc_session = Some 1, malloc_lock = Some 2,
      ssh_new = Some 3, hostkeys_set_ret = 0, sock_connect_ret = 5, ly_ctx_new = Some 4,
      client_capabilities = [base_1_0, base_1_1],
      hello_received = Some [base_1_0, base_1_1],
      ctx_check_and_fill_ret = 0,
      get_port = 830, get_host = Some ''device'', get_user = Some ''admin'',
      is_connected = False\<rparr>"

text \<open>
  Three settings of the preferences, for the examples: the caller has disabled
  keyboard-interactive and password for Call Home; the caller has given the password the
  preference 0 and disabled the other two methods; the same with keyboard-interactive at
  preference 0.
\<close>

definition ch_disabled_globals :: client_globals where
  "ch_disabled_globals =
     nc_client_ssh_ch_set_auth_pref NC_SSH_AUTH_INTERACTIVE (- 1)
       (nc_client_ssh_ch_set_auth_pref NC_SSH_AUTH_PASSWORD (- 1) init_globals)"

definition password_zero_globals :: client_globals where
  "password_zero_globals =
     nc_client_ssh_set_auth_pref NC_SSH_AUTH_PASSWORD 0
       (nc_client_ssh_set_auth_pref NC_SSH_AUTH_INTERACTIVE (- 1)
          (nc_client_ssh_set_auth_pref NC_SSH_AUTH_PUBLICKEY (- 1) init_globals))"

definition interactive_zero_globals :: client_globals where
  "interactive_zero_globals =
     nc_client_ssh_set_auth_pref NC_SSH_AUTH_INTERACTIVE 0
       (nc_client_ssh_set_auth_pref NC_SSH_AUTH_PASSWORD (- 1)
          (nc_client_ssh_set_auth_pref NC_SSH_AUTH_PUBLICKEY (- 1) init_globals))"

section \<open>Unfolding a concrete run\<close>

lemmas sample_simps = sample_env_def init_globals_def init_ssh_opts_def init_ssh_ch_opts_def
  mk_pref_def effective_host_def effective_port_def strisempty_def

lemmas run_simps = sample_simps sshauth_hostkey_check_def hostkey_not_known_def
  connect_ssh_session_netconf_def Let_def SSH_OK_def auth_loop.simps select_auth_def
  remove_disabled_def nc_connect_ssh_def default_username_def fail_free_def faulted_def
  ctx_and_handshake_def nc_handshake_def nc_handshake_result_def negotiate_version_def
  base_1_0_def base_1_1_def

section \<open>Facts about traces\<close>

lemma hostkeys_set_append: "hostkeys_set (xs @ ys) = hostkeys_set xs @ hostkeys_set ys"
  by (induction xs rule: hostkeys_set.induct) simp_all

lemma sock_connects_append: "sock_connects (xs @ ys) = sock_connects xs @ sock_connects ys"
  by (induction xs rule: sock_connects.induct) simp_all

lemma status_writes_append: "status_writes a (xs @ ys) = status_writes a xs @ status_writes a ys"
  by (induction a xs rule: status_writes.induct) simp_all

lemma ask_user_events: "snd (ask_user as) = [] \<or> snd (ask_user as) = [Write_knownhost]"
  by (induction as) auto

lemma hostkey_check_events:
  "snd (sshauth_hostkey_check e hst) = [] \<or> snd (sshauth_hostkey_check e hst) = [Write_knownhost]"
  using ask_user_events [of "stdin_answers e"]
  by (auto simp: sshauth_hostkey_check_def hostkey_not_known_def split: ssh_server_known_e.splits)

lemma userauths_append: "userauths (xs @ ys) = userauths xs @ userauths ys"
  by (induction xs rule: userauths.induct) simp_all

lemma auth_events_silent:
  "hostkeys_set (auth_events rs) = []" "sock_connects (auth_events rs) = []"
  "status_writes a (auth_events rs) = []"
  by (induction rs rule: auth_events.induct) simp_all

lemma userauths_auth_events: "userauths (auth_events rs) = map snd rs"
  by (induction rs rule: auth_events.induct) simp_all

lemma connect_events:
  "\<exists>hk. (hk = [] \<or> hk = [Write_knownhost]) \<and>
     (cr_events (connect_ssh_session_netconf e g hst) = hk \<or>
      cr_events (connect_ssh_session_netconf e g hst)
        = hk @ auth_events (cr_rounds (connect_ssh_session_netconf e g hst)))"
  using hostkey_check_events [of e hst]
  by (auto simp: connect_ssh_session_netconf_def Let_def)

lemma connect_events_silent:
  "hostkeys_set (cr_events (connect_ssh_session_netconf e g hst)) = []"
  "sock_connects (cr_events (connect_ssh_session_netconf e g hst)) = []"
  "status_writes a (cr_events (connect_ssh_session_netconf e g hst)) = []"
  using connect_events [of e g hst]
  by (auto simp: hostkeys_set_append sock_connects_append status_writes_append
      auth_events_silent)

lemma handshake_events_silent:
  "hostkeys_set (snd (snd (ctx_and_handshake e a c s))) = []"
  "sock_connects (snd (snd (ctx_and_handshake e a c s))) = []"
  by (simp_all add: ctx_and_handshake_def Let_def)

lemma set_hostkeys_cases:
  "hostkeys_set (set_hostkeys e) =
     (if hostkeys_set_ret e \<noteq> 0 then [Str hostkeys_rich, Str hostkeys_reduced]
      else [Str hostkeys_rich])"
  by (simp add: set_hostkeys_def)

lemma set_hostkeys_silent:
  "sock_connects (set_hostkeys e) = []" "status_writes a (set_hostkeys e) = []"
  by (simp_all add: set_hostkeys_def)

lemma host_block_silent:
  "hostkeys_set (fst (snd (libssh_host_block e))) = []"
  "status_writes a (fst (snd (libssh_host_block e))) = []"
  by (simp_all add: libssh_host_block_def split: option.splits)

lemma auth_block_silent:
  "hostkeys_set (fst (snd (snd (libssh_auth_block e g hst)))) = []"
  "status_writes a (fst (snd (snd (libssh_auth_block e g hst)))) = []"
  by (simp_all add: libssh_auth_block_def Let_def connect_events_silent split: option.splits)

lemmas trace_simps = hostkeys_set_append sock_connects_append status_writes_append
  connect_events_silent handshake_events_silent set_hostkeys_silent

lemmas libssh_simps = nc_connect_libssh_def libssh_host_block_def libssh_auth_block_def
  nc_accept_callhome_sock_ssh_def

lemma handshake_status:
  "status_writes x (snd (snd (ctx_and_handshake e a c s))) =
     (if fst (ctx_and_handshake e a c s) \<and> x = a then [NC_STATUS_RUNNING] else [])"
  by (simp add: ctx_and_handshake_def Let_def)

lemma handshake_ok_iff:
  "fst (ctx_and_handshake e a c s) \<longleftrightarrow>
     (\<exists>v. nc_handshake_result (client_capabilities e) (hello_received e) = Inr v)"
  by (simp add: ctx_and_handshake_def nc_handshake_def Let_def split: sum.splits)

lemma handshake_ok_fields:
  assumes "fst (ctx_and_handshake e a c s)"
  shows "status (fst (snd (ctx_and_handshake e a c s))) = NC_STATUS_RUNNING"
    and "nc_handshake_result (client_capabilities e) (hello_received e)
           = Inr (version (fst (snd (ctx_and_handshake e a c s))))"
    and "libssh_session (fst (snd (ctx_and_handshake e a c s))) = libssh_session s"
    and "ti_lock (fst (snd (ctx_and_handshake e a c s))) = ti_lock s"
  using assms
  by (simp_all add: ctx_and_handshake_def nc_handshake_def Let_def split: sum.splits if_splits)

section \<open>Setting and reading a preference\<close>

lemma get_is_slot:
  "nc_client_ssh_get_auth_pref_opts t opts = pref_value (auth_pref opts (pref_slot t))"
  by (cases t) (simp_all add: nc_client_ssh_get_auth_pref_opts_def)

lemma set_is_slot:
  "nc_client_ssh_set_auth_pref_opts t p opts =
     set_pref_value (pref_slot t) (if sint p < 0 then - 1 else p) opts"
  by (cases t) (simp_all add: nc_client_ssh_set_auth_pref_opts_def Let_def)

lemma pref_slot_inj: "pref_slot t = pref_slot t' \<longleftrightarrow> t = t'"
  by (cases t; cases t') simp_all

lemma get_set_same:
  "nc_client_ssh_get_auth_pref_opts t (nc_client_ssh_set_auth_pref_opts t p opts) =
     (if sint p < 0 then - 1 else p)"
  by (simp add: get_is_slot set_is_slot set_pref_value_def)

lemma get_set_other:
  "t' \<noteq> t \<Longrightarrow>
   nc_client_ssh_get_auth_pref_opts t' (nc_client_ssh_set_auth_pref_opts t p opts) =
     nc_client_ssh_get_auth_pref_opts t' opts"
  by (simp add: get_is_slot set_is_slot set_pref_value_def pref_slot_inj)

text \<open>
  Claim C10. For each of the three authentication types and every 16-bit preference:
  after \<^verbatim>\<open>nc_client_ssh_set_auth_pref(auth_type, pref)\<close> the getter returns \<open>pref\<close> when
  \<open>pref \<ge> 0\<close> and -1 when \<open>pref < 0\<close>; the preferences of the other two types are what they were;
  the Call Home block is untouched. The \<^verbatim>\<open>nc_client_ssh_ch_*\<close> functions do the same on
  their own block and leave the normal block untouched.
\<close>

theorem auth_pref_set_get:
  "sint (nc_client_ssh_get_auth_pref t (nc_client_ssh_set_auth_pref t p g)) =
     (if 0 \<le> sint p then sint p else - 1)
   \<and> (\<forall>t'. t' \<noteq> t \<longrightarrow>
         nc_client_ssh_get_auth_pref t' (nc_client_ssh_set_auth_pref t p g) =
           nc_client_ssh_get_auth_pref t' g)
   \<and> ssh_ch_opts (nc_client_ssh_set_auth_pref t p g) = ssh_ch_opts g
   \<and> sint (nc_client_ssh_ch_get_auth_pref t (nc_client_ssh_ch_set_auth_pref t p g)) =
       (if 0 \<le> sint p then sint p else - 1)
   \<and> (\<forall>t'. t' \<noteq> t \<longrightarrow>
         nc_client_ssh_ch_get_auth_pref t' (nc_client_ssh_ch_set_auth_pref t p g) =
           nc_client_ssh_ch_get_auth_pref t' g)
   \<and> ssh_opts (nc_client_ssh_ch_set_auth_pref t p g) = ssh_opts g"
  by (simp add: nc_client_ssh_get_auth_pref_def nc_client_ssh_set_auth_pref_def
      nc_client_ssh_ch_get_auth_pref_def nc_client_ssh_ch_set_auth_pref_def
      get_set_same get_set_other)

theorem auth_pref_set_get_witness:
  "sint (nc_client_ssh_get_auth_pref NC_SSH_AUTH_PASSWORD
           (nc_client_ssh_set_auth_pref NC_SSH_AUTH_PASSWORD (- 7) init_globals)) = - 1
   \<and> NC_SSH_AUTH_INTERACTIVE \<noteq> NC_SSH_AUTH_PASSWORD
   \<and> nc_client_ssh_get_auth_pref NC_SSH_AUTH_INTERACTIVE
        (nc_client_ssh_set_auth_pref NC_SSH_AUTH_PASSWORD (- 7) init_globals) = 3
   \<and> NC_SSH_AUTH_PUBLICKEY \<noteq> NC_SSH_AUTH_PASSWORD
   \<and> nc_client_ssh_ch_get_auth_pref NC_SSH_AUTH_PUBLICKEY
        (nc_client_ssh_ch_set_auth_pref NC_SSH_AUTH_PASSWORD (- 7) init_globals) = 3"
proof -
  note h = auth_pref_set_get [of NC_SSH_AUTH_PASSWORD "- 7" init_globals]
  have a: "sint (nc_client_ssh_get_auth_pref NC_SSH_AUTH_PASSWORD
           (nc_client_ssh_set_auth_pref NC_SSH_AUTH_PASSWORD (- 7) init_globals)) = - 1"
    using h by simp
  have b: "nc_client_ssh_get_auth_pref NC_SSH_AUTH_INTERACTIVE
        (nc_client_ssh_set_auth_pref NC_SSH_AUTH_PASSWORD (- 7) init_globals) =
        nc_client_ssh_get_auth_pref NC_SSH_AUTH_INTERACTIVE init_globals"
    using h by blast
  have c: "nc_client_ssh_ch_get_auth_pref NC_SSH_AUTH_PUBLICKEY
        (nc_client_ssh_ch_set_auth_pref NC_SSH_AUTH_PASSWORD (- 7) init_globals) =
        nc_client_ssh_ch_get_auth_pref NC_SSH_AUTH_PUBLICKEY init_globals"
    using h by blast
  have b': "nc_client_ssh_get_auth_pref NC_SSH_AUTH_INTERACTIVE init_globals = 3"
    by (simp add: init_globals_def init_ssh_opts_def mk_pref_def
        nc_client_ssh_get_auth_pref_def nc_client_ssh_get_auth_pref_opts_def)
  have c': "nc_client_ssh_ch_get_auth_pref NC_SSH_AUTH_PUBLICKEY init_globals = 3"
    by (simp add: init_globals_def init_ssh_ch_opts_def mk_pref_def
        nc_client_ssh_ch_get_auth_pref_def nc_client_ssh_get_auth_pref_opts_def)
  show ?thesis using a b c b' c' by simp
qed

section \<open>The host key of an unknown server\<close>

lemma ask_user_find:
  "ask_user as =
     (if find (\<lambda>a. a = ''yes'' \<or> a = ''no'') as = Some ''yes''
      then (0, [Write_knownhost]) else (- 1, []))"
  by (induction as) auto

lemma hostkey_check_not_known:
  assumes "is_server_known e \<in> {SSH_SERVER_NOT_KNOWN, SSH_SERVER_FOUND_OTHER, SSH_SERVER_FILE_NOT_FOUND}"
    and "0 \<le> get_publickey_ret e" and "0 \<le> publickey_hash_ret e"
  shows "sshauth_hostkey_check e hostname = hostkey_not_known e hostname"
  using assms by (auto simp: sshauth_hostkey_check_def)

lemma hostkey_fail_connect:
  "fst (sshauth_hostkey_check e hst) \<noteq> 0 \<Longrightarrow>
   cr_ret (connect_ssh_session_netconf e g hst) = Returns (- 1)"
  by (simp add: connect_ssh_session_netconf_def Let_def)

lemma connect_fail_nc_connect_ssh:
  "cr_ret (connect_ssh_session_netconf e g (effective_host host_arg)) \<noteq> Returns 0 \<Longrightarrow>
   fst (nc_connect_ssh e g h host_arg port_arg ctx_arg) = None"
  by (simp add: nc_connect_ssh_def Let_def fail_free_def faulted_def split: option.splits)

text \<open>
  Claim C1, as the code has it. When the server's key is not in the known-hosts file
  (not known, another type known, or no file) and the key and its hash could be read:
  without DNSSEC the check asks the user and follows the first answer that is \<^verbatim>\<open>yes\<close> or
  \<^verbatim>\<open>no\<close>. On \<^verbatim>\<open>yes\<close> it writes the key to known-hosts and returns 0. On \<^verbatim>\<open>no\<close>, or when
  the input ends first, it returns -1, \<^verbatim>\<open>connect_ssh_session_netconf\<close> returns -1 and
  \<^verbatim>\<open>nc_connect_ssh\<close> returns \<^verbatim>\<open>NULL\<close>. With DNSSEC compiled in, a DSS, RSA or ECDSA key
  for which the SSHFP check returns 0 is accepted at once: the key is written to
  known-hosts and the check returns 0.
\<close>

theorem hostkey_not_known_decided:
  assumes "is_server_known e \<in> {SSH_SERVER_NOT_KNOWN, SSH_SERVER_FOUND_OTHER, SSH_SERVER_FILE_NOT_FOUND}"
    and "0 \<le> get_publickey_ret e" and "0 \<le> publickey_hash_ret e"
  shows "(\<not> ENABLE_DNSSEC e \<longrightarrow>
            (find (\<lambda>a. a = ''yes'' \<or> a = ''no'') (stdin_answers e) = Some ''yes'' \<longrightarrow>
               sshauth_hostkey_check e (effective_host host_arg) = (0, [Write_knownhost]))
          \<and> (find (\<lambda>a. a = ''yes'' \<or> a = ''no'') (stdin_answers e) \<noteq> Some ''yes'' \<longrightarrow>
               sshauth_hostkey_check e (effective_host host_arg) = (- 1, [])
               \<and> cr_ret (connect_ssh_session_netconf e g (effective_host host_arg)) = Returns (- 1)
               \<and> fst (nc_connect_ssh e g h host_arg port_arg ctx_arg) = None))
       \<and> (ENABLE_DNSSEC e \<and> key_type e \<in> {SSH_KEYTYPE_DSS, SSH_KEYTYPE_RSA, SSH_KEYTYPE_ECDSA}
            \<and> dnssec_ret e (effective_host host_arg) = 0 \<longrightarrow>
               sshauth_hostkey_check e (effective_host host_arg) = (0, [Write_knownhost]))"
proof -
  let ?hst = "effective_host host_arg"
  have eq: "sshauth_hostkey_check e ?hst = hostkey_not_known e ?hst"
    using assms by (rule hostkey_check_not_known)
  have yes: "sshauth_hostkey_check e ?hst = (0, [Write_knownhost])"
    if "\<not> ENABLE_DNSSEC e" "find (\<lambda>a. a = ''yes'' \<or> a = ''no'') (stdin_answers e) = Some ''yes''"
    using that by (simp add: eq hostkey_not_known_def ask_user_find)
  have no: "sshauth_hostkey_check e ?hst = (- 1, [])"
    if "\<not> ENABLE_DNSSEC e" "find (\<lambda>a. a = ''yes'' \<or> a = ''no'') (stdin_answers e) \<noteq> Some ''yes''"
    using that by (simp add: eq hostkey_not_known_def ask_user_find)
  have no2: "cr_ret (connect_ssh_session_netconf e g ?hst) = Returns (- 1)
      \<and> fst (nc_connect_ssh e g h host_arg port_arg ctx_arg) = None"
    if "\<not> ENABLE_DNSSEC e" "find (\<lambda>a. a = ''yes'' \<or> a = ''no'') (stdin_answers e) \<noteq> Some ''yes''"
  proof -
    have "fst (sshauth_hostkey_check e ?hst) \<noteq> 0" using no [OF that] by simp
    then have c: "cr_ret (connect_ssh_session_netconf e g ?hst) = Returns (- 1)"
      by (rule hostkey_fail_connect)
    then have "cr_ret (connect_ssh_session_netconf e g ?hst) \<noteq> Returns 0" by simp
    then have "fst (nc_connect_ssh e g h host_arg port_arg ctx_arg) = None"
      by (rule connect_fail_nc_connect_ssh)
    with c show ?thesis by simp
  qed
  have dns: "sshauth_hostkey_check e ?hst = (0, [Write_knownhost])"
    if "ENABLE_DNSSEC e" "key_type e \<in> {SSH_KEYTYPE_DSS, SSH_KEYTYPE_RSA, SSH_KEYTYPE_ECDSA}"
       "dnssec_ret e ?hst = 0"
    using that by (auto simp: eq hostkey_not_known_def)
  show ?thesis using yes no no2 dns by blast
qed

text \<open>
  The theorem at two runs: a user who first types something else and then \<^verbatim>\<open>no\<close>, and a
  DNSSEC build whose SSHFP check succeeds.
\<close>

theorem hostkey_not_known_decided_witness:
  "sshauth_hostkey_check
     (sample_env\<lparr>is_server_known := SSH_SERVER_NOT_KNOWN, stdin_answers := [''what'', ''no'']\<rparr>)
     (effective_host (Some ''device'')) = (- 1, [])
   \<and> fst (nc_connect_ssh
       (sample_env\<lparr>is_server_known := SSH_SERVER_NOT_KNOWN, stdin_answers := [''what'', ''no'']\<rparr>)
       init_globals Map.empty (Some ''device'') 0 None) = None
   \<and> sshauth_hostkey_check
       (sample_env\<lparr>is_server_known := SSH_SERVER_FOUND_OTHER, ENABLE_DNSSEC := True,
                   dnssec_check := (\<lambda>hostname t alg. if t = 1 \<and> alg = 1 then 0 else 2)\<rparr>)
       (effective_host (Some ''device'')) = (0, [Write_knownhost])"
proof -
  let ?e1 = "sample_env\<lparr>is_server_known := SSH_SERVER_NOT_KNOWN, stdin_answers := [''what'', ''no'']\<rparr>"
  let ?e2 = "sample_env\<lparr>is_server_known := SSH_SERVER_FOUND_OTHER, ENABLE_DNSSEC := True,
                   dnssec_check := (\<lambda>hostname t alg. if t = 1 \<and> alg = 1 then 0 else 2)\<rparr>"
  have p1: "is_server_known ?e1 \<in> {SSH_SERVER_NOT_KNOWN, SSH_SERVER_FOUND_OTHER, SSH_SERVER_FILE_NOT_FOUND}"
    "0 \<le> get_publickey_ret ?e1" "0 \<le> publickey_hash_ret ?e1"
    by (simp_all add: sample_env_def)
  have p2: "is_server_known ?e2 \<in> {SSH_SERVER_NOT_KNOWN, SSH_SERVER_FOUND_OTHER, SSH_SERVER_FILE_NOT_FOUND}"
    "0 \<le> get_publickey_ret ?e2" "0 \<le> publickey_hash_ret ?e2"
    by (simp_all add: sample_env_def)
  have q1: "\<not> ENABLE_DNSSEC ?e1"
    "find (\<lambda>a. a = ''yes'' \<or> a = ''no'') (stdin_answers ?e1) \<noteq> Some ''yes''"
    by (simp_all add: sample_env_def)
  have q2: "ENABLE_DNSSEC ?e2"
    "key_type ?e2 \<in> {SSH_KEYTYPE_DSS, SSH_KEYTYPE_RSA, SSH_KEYTYPE_ECDSA}"
    "dnssec_ret ?e2 (effective_host (Some ''device'')) = 0"
    by (simp_all add: sample_env_def dnssec_ret_def)
  from hostkey_not_known_decided [OF p1, of "Some ''device''" init_globals Map.empty 0 None] q1
  have a: "sshauth_hostkey_check ?e1 (effective_host (Some ''device'')) = (- 1, [])
      \<and> fst (nc_connect_ssh ?e1 init_globals Map.empty (Some ''device'') 0 None) = None"
    by blast
  from hostkey_not_known_decided [OF p2, of "Some ''device''"] q2
  have b: "sshauth_hostkey_check ?e2 (effective_host (Some ''device'')) = (0, [Write_knownhost])"
    by blast
  from a b show ?thesis by blast
qed

text \<open>
  Claim C1 as it is written fails: the key is not in known-hosts, DNSSEC is not compiled
  in, the user answers \<^verbatim>\<open>yes\<close>, and the check accepts the server; the connection
  is made.
\<close>

theorem hostkey_unknown_accepted_counterexample:
  "is_server_known (sample_env\<lparr>is_server_known := SSH_SERVER_NOT_KNOWN, stdin_answers := [''yes'']\<rparr>)
     = SSH_SERVER_NOT_KNOWN
   \<and> \<not> ENABLE_DNSSEC (sample_env\<lparr>is_server_known := SSH_SERVER_NOT_KNOWN, stdin_answers := [''yes'']\<rparr>)
   \<and> sshauth_hostkey_check
       (sample_env\<lparr>is_server_known := SSH_SERVER_NOT_KNOWN, stdin_answers := [''yes'']\<rparr>) ''device''
     = (0, [Write_knownhost])
   \<and> cr_ret (connect_ssh_session_netconf
       (sample_env\<lparr>is_server_known := SSH_SERVER_NOT_KNOWN, stdin_answers := [''yes'']\<rparr>)
       init_globals ''device'') = Returns 0
   \<and> fst (nc_connect_ssh
       (sample_env\<lparr>is_server_known := SSH_SERVER_NOT_KNOWN, stdin_answers := [''yes'']\<rparr>)
       init_globals Map.empty (Some ''device'') 830 None) = Some 1"
  by (simp add: sample_simps sshauth_hostkey_check_def hostkey_not_known_def
      connect_ssh_session_netconf_def Let_def SSH_OK_def auth_loop.simps select_auth_def
      remove_disabled_def nc_connect_ssh_def default_username_def fail_free_def faulted_def
      ctx_and_handshake_def nc_handshake_def nc_handshake_result_def negotiate_version_def
      base_1_0_def base_1_1_def)

section \<open>Version negotiation\<close>

text \<open>
  Claim C2. For any two advertisements, the negotiated version is 1.1 exactly when both
  include base:1.1; it is 1.0 exactly when that is not so and both include base:1.0; and
  the negotiation fails with the unsupported-version error exactly when neither holds. A
  handshake that received the peer's hello returns 0 and stores the negotiated version
  in the session, or returns non-zero and leaves the session as it was.
\<close>

theorem version_negotiation:
  "(negotiate_version A_client A_server = Inr NC_VERSION_11
      \<longleftrightarrow> base_1_1 \<in> set A_client \<and> base_1_1 \<in> set A_server)
   \<and> (negotiate_version A_client A_server = Inr NC_VERSION_10
      \<longleftrightarrow> \<not> (base_1_1 \<in> set A_client \<and> base_1_1 \<in> set A_server)
          \<and> base_1_0 \<in> set A_client \<and> base_1_0 \<in> set A_server)
   \<and> (negotiate_version A_client A_server = Inl Unsupported_version
      \<longleftrightarrow> \<not> (base_1_1 \<in> set A_client \<and> base_1_1 \<in> set A_server)
          \<and> \<not> (base_1_0 \<in> set A_client \<and> base_1_0 \<in> set A_server))
   \<and> (client_capabilities e = A_client \<and> hello_received e = Some A_server \<longrightarrow>
        (case negotiate_version A_client A_server of
           Inr v \<Rightarrow> nc_handshake e s = (0, s\<lparr>version := v\<rparr>)
         | Inl err \<Rightarrow> fst (nc_handshake e s) \<noteq> 0 \<and> snd (nc_handshake e s) = s))"
  by (auto simp: negotiate_version_def nc_handshake_def nc_handshake_result_def
      split: sum.splits)

text \<open>A client that advertises both versions meets a server that only has base:1.0.\<close>

theorem version_negotiation_witness:
  "negotiate_version [base_1_0, base_1_1] [base_1_0] = Inr NC_VERSION_10
   \<and> nc_handshake (sample_env\<lparr>hello_received := Some [base_1_0]\<rparr>) calloc_nc_session
       = (0, calloc_nc_session\<lparr>version := NC_VERSION_10\<rparr>)
   \<and> negotiate_version [base_1_1] [base_1_0] = Inl Unsupported_version"
proof -
  let ?e = "sample_env\<lparr>hello_received := Some [base_1_0]\<rparr>"
  note h = version_negotiation [of "[base_1_0, base_1_1]" "[base_1_0]" ?e calloc_nc_session]
  note h2 = version_negotiation [of "[base_1_1]" "[base_1_0]"]
  have d: "base_1_0 \<noteq> base_1_1" by (simp add: base_1_0_def base_1_1_def)
  from h d have a: "negotiate_version [base_1_0, base_1_1] [base_1_0] = Inr NC_VERSION_10"
    by simp
  have c: "client_capabilities ?e = [base_1_0, base_1_1] \<and> hello_received ?e = Some [base_1_0]"
    by (simp add: sample_env_def)
  from h c a have b: "nc_handshake ?e calloc_nc_session
      = (0, calloc_nc_session\<lparr>version := NC_VERSION_10\<rparr>)"
    by simp
  from h2 d have "negotiate_version [base_1_1] [base_1_0] = Inl Unsupported_version"
    by simp
  with a b show ?thesis by blast
qed

section \<open>Message-ids\<close>










section \<open>The status of a session\<close>

lemma nc_connect_ssh_trace:
  "trace_shape e x (nc_connect_ssh e g h host_arg port_arg ctx_arg)"
  by (simp add: trace_shape_def nc_connect_ssh_def Let_def fail_free_def faulted_def trace_simps
      handshake_status handshake_ok_iff split: option.splits)

lemma nc_connect_ssh_created:
  "created_running e (nc_connect_ssh e g h host_arg port_arg ctx_arg)"
  by (simp add: created_running_def nc_connect_ssh_def Let_def fail_free_def faulted_def
      trace_simps handshake_status handshake_ok_fields split: option.splits)

lemma nc_connect_libssh_trace:
  "trace_shape e x (nc_connect_libssh e g h ss ctx_arg)"
  by (simp add: trace_shape_def nc_connect_libssh_def Let_def fail_free_def faulted_def
      trace_simps host_block_silent auth_block_silent handshake_status handshake_ok_iff
      split: option.splits)

lemma nc_connect_libssh_created:
  "created_running e (nc_connect_libssh e g h ss ctx_arg)"
  by (simp add: created_running_def nc_connect_libssh_def Let_def fail_free_def faulted_def
      trace_simps host_block_silent auth_block_silent handshake_status handshake_ok_fields
      split: option.splits)

lemma nc_connect_ssh_channel_trace:
  "trace_shape e x (nc_connect_ssh_channel e h sp ctx_arg)"
  by (simp add: trace_shape_def nc_connect_ssh_channel_def Let_def fail_free_def trace_simps
      handshake_status handshake_ok_iff split: option.splits)

lemma nc_connect_ssh_channel_created:
  "created_running e (nc_connect_ssh_channel e h sp ctx_arg)"
  by (simp add: created_running_def nc_connect_ssh_channel_def Let_def fail_free_def trace_simps
      handshake_status handshake_ok_fields split: option.splits)

lemma trace_shape_sorted:
  "trace_shape e x r \<Longrightarrow> sorted (map lifecycle_rank (status_writes x (snd (snd r))))"
  by (auto simp: trace_shape_def)

text \<open>
  What one call of a connect function does to the status. Each of the three functions
  writes the status of a session at most twice: \<open>starting\<close> when the session is created,
  and \<open>running\<close> after that, and \<open>running\<close> only when the handshake has succeeded. A
  session that a connect function returns is running and carries the version that the
  handshake negotiated. The writes of \<open>closing\<close> and \<open>invalid\<close> are made by functions
  outside these sources.
\<close>

lemma connect_status_writes:
  assumes "r = nc_connect_ssh e g h host_arg port_arg ctx_arg
           \<or> r = nc_connect_libssh e g h ss ctx_arg
           \<or> r = nc_connect_ssh_channel e h sp ctx_arg"
  shows "(status_writes x (snd (snd r)) = []
          \<or> status_writes x (snd (snd r)) = [NC_STATUS_STARTING]
          \<or> status_writes x (snd (snd r)) = [NC_STATUS_STARTING, NC_STATUS_RUNNING])
       \<and> sorted (map lifecycle_rank (status_writes x (snd (snd r))))
       \<and> (NC_STATUS_RUNNING \<in> set (status_writes x (snd (snd r))) \<longrightarrow>
            (\<exists>v. nc_handshake_result (client_capabilities e) (hello_received e) = Inr v))
       \<and> (\<forall>a. fst r = Some a \<longrightarrow>
            (\<exists>s. fst (snd r) a = Some s \<and> status s = NC_STATUS_RUNNING
               \<and> nc_handshake_result (client_capabilities e) (hello_received e) = Inr (version s)
               \<and> status_writes a (snd (snd r)) = [NC_STATUS_STARTING, NC_STATUS_RUNNING]))"
proof -
  have t: "trace_shape e x r"
    using assms nc_connect_ssh_trace nc_connect_libssh_trace nc_connect_ssh_channel_trace
    by auto
  have c: "created_running e r"
    using assms nc_connect_ssh_created nc_connect_libssh_created nc_connect_ssh_channel_created
    by auto
  have s: "sorted (map lifecycle_rank (status_writes x (snd (snd r))))"
    using t by (rule trace_shape_sorted)
  have t1: "status_writes x (snd (snd r)) = []
          \<or> status_writes x (snd (snd r)) = [NC_STATUS_STARTING]
          \<or> status_writes x (snd (snd r)) = [NC_STATUS_STARTING, NC_STATUS_RUNNING]"
    using t by (auto simp: trace_shape_def)
  have t2: "NC_STATUS_RUNNING \<in> set (status_writes x (snd (snd r))) \<longrightarrow>
            (\<exists>v. nc_handshake_result (client_capabilities e) (hello_received e) = Inr v)"
    using t by (auto simp: trace_shape_def)
  from t1 s t2 c show ?thesis unfolding created_running_def by blast
qed


section \<open>The order of the authentication methods\<close>

lemma remove_disabled_enabled:
  "method_bit b \<in> remove_disabled opts l0 \<Longrightarrow> 0 \<le> pref_of opts b \<and> method_bit b \<in> l0"
  by (cases b) (auto simp: remove_disabled_def Let_def pref_of_def split: if_splits)

lemma select_auth_max:
  assumes en: "\<forall>b. method_bit b \<in> l \<longrightarrow> 0 \<le> pref_of opts b"
    and sel: "select_auth opts l = Some a"
  shows "pref_of opts b \<le> pref_of opts a \<or> method_bit b \<notin> l"
proof -
  have i: "SSH_AUTH_METHOD_INTERACTIVE \<in> l \<Longrightarrow> 0 \<le> sint (pref_value (auth_pref opts 0))"
    using en [rule_format, of NC_SSH_AUTH_INTERACTIVE] by (simp add: pref_of_def)
  have p: "SSH_AUTH_METHOD_PASSWORD \<in> l \<Longrightarrow> 0 \<le> sint (pref_value (auth_pref opts 1))"
    using en [rule_format, of NC_SSH_AUTH_PASSWORD] by (simp add: pref_of_def)
  have k: "SSH_AUTH_METHOD_PUBLICKEY \<in> l \<Longrightarrow> 0 \<le> sint (pref_value (auth_pref opts 2))"
    using en [rule_format, of NC_SSH_AUTH_PUBLICKEY] by (simp add: pref_of_def)
  show ?thesis
    using sel i p k
    by (cases b; cases a)
       (auto simp: select_auth_def Let_def pref_of_def split: if_splits)
qed

lemma auth_loop_step:
  assumes "ret_auth \<noteq> SSH_AUTH_SUCCESS" and "select_auth opts l = Some x"
  shows "auth_loop e opts l ret_auth =
     (case attempt e opts x ret_auth of
        Faults \<Rightarrow> ([(l, x)], Faults)
      | Returns r \<Rightarrow> ((l, x) # fst (auth_loop e opts (l - {method_bit x}) r),
                      snd (auth_loop e opts (l - {method_bit x}) r)))"
  by (subst auth_loop.simps) (simp add: assms Let_def split: run.splits)

lemma auth_loop_rounds:
  assumes "\<forall>b. method_bit b \<in> l \<longrightarrow> 0 \<le> pref_of opts b"
    and "(l', a) \<in> set (fst (auth_loop e opts l ret))"
  shows "l' \<subseteq> l \<and> method_bit a \<in> l' \<and> 0 \<le> pref_of opts a
         \<and> (\<forall>b. method_bit b \<in> l' \<longrightarrow> pref_of opts b \<le> pref_of opts a)"
  using assms
proof (induction e opts l ret rule: auth_loop.induct)
  case (1 e opts l ret_auth)
  show ?case
  proof (cases "ret_auth = SSH_AUTH_SUCCESS")
    case True
    with "1.prems" show ?thesis by (simp add: auth_loop.simps)
  next
    case nosucc: False
    show ?thesis
    proof (cases "select_auth opts l")
      case None
      with nosucc "1.prems" show ?thesis by (simp add: auth_loop.simps)
    next
      case (Some x)
      have bit: "method_bit x \<in> l" using Some by (rule select_auth_offered)
      have mx: "\<forall>b. method_bit b \<in> l \<longrightarrow> pref_of opts b \<le> pref_of opts x"
        using select_auth_max [OF "1.prems"(1) Some] by blast
      have en': "\<forall>b. method_bit b \<in> l - {method_bit x} \<longrightarrow> 0 \<le> pref_of opts b"
        using "1.prems"(1) by simp
      have here: "l \<subseteq> l \<and> method_bit x \<in> l \<and> 0 \<le> pref_of opts x
         \<and> (\<forall>b. method_bit b \<in> l \<longrightarrow> pref_of opts b \<le> pref_of opts x)"
        using bit mx "1.prems"(1) by simp
      show ?thesis
      proof (cases "attempt e opts x ret_auth")
        case Faults
        with "1.prems"(2) nosucc Some have "(l', a) = (l, x)"
          by (simp add: auth_loop_step)
        with here show ?thesis by simp
      next
        case (Returns r)
        with "1.prems"(2) nosucc Some
        have "(l', a) = (l, x) \<or> (l', a) \<in> set (fst (auth_loop e opts (l - {method_bit x}) r))"
          by (simp add: auth_loop_step)
        then show ?thesis
        proof
          assume "(l', a) = (l, x)"
          with here show ?thesis by simp
        next
          assume "(l', a) \<in> set (fst (auth_loop e opts (l - {method_bit x}) r))"
          from "1.IH" [OF nosucc Some Returns en' this] show ?thesis by blast
        qed
      qed
    qed
  qed
qed

lemma auth_loop_chained: "chained l (fst (auth_loop e opts l ret))"
proof (induction e opts l ret rule: auth_loop.induct)
  case (1 e opts l ret_auth)
  show ?case
  proof (cases "ret_auth = SSH_AUTH_SUCCESS")
    case True
    then show ?thesis by (simp add: auth_loop.simps)
  next
    case nosucc: False
    show ?thesis
    proof (cases "select_auth opts l")
      case None
      with nosucc show ?thesis by (simp add: auth_loop.simps)
    next
      case (Some x)
      show ?thesis
      proof (cases "attempt e opts x ret_auth")
        case Faults
        with nosucc Some show ?thesis by (simp add: auth_loop_step)
      next
        case (Returns r)
        from "1.IH" [OF nosucc Some Returns] nosucc Some Returns show ?thesis
          by (simp add: auth_loop_step)
      qed
    qed
  qed
qed

lemma method_bit_inj: "method_bit a = method_bit b \<longleftrightarrow> a = b"
  by (cases a; cases b) simp_all

lemma auth_loop_tried_offered:
  "a \<in> snd ` set (fst (auth_loop e opts l ret)) \<Longrightarrow> method_bit a \<in> l"
proof (induction e opts l ret rule: auth_loop.induct)
  case (1 e opts l ret_auth)
  show ?case
  proof (cases "ret_auth = SSH_AUTH_SUCCESS")
    case True
    with "1.prems" show ?thesis by (simp add: auth_loop.simps)
  next
    case nosucc: False
    show ?thesis
    proof (cases "select_auth opts l")
      case None
      with nosucc "1.prems" show ?thesis by (simp add: auth_loop.simps)
    next
      case (Some x)
      have bit: "method_bit x \<in> l" using Some by (rule select_auth_offered)
      show ?thesis
      proof (cases "attempt e opts x ret_auth")
        case Faults
        with "1.prems" nosucc Some have "a = x" by (simp add: auth_loop_step)
        with bit show ?thesis by simp
      next
        case (Returns r)
        with "1.prems" nosucc Some
        have "a = x \<or> a \<in> snd ` set (fst (auth_loop e opts (l - {method_bit x}) r))"
          by (auto simp: auth_loop_step)
        then show ?thesis
        proof
          assume "a = x" with bit show ?thesis by simp
        next
          assume "a \<in> snd ` set (fst (auth_loop e opts (l - {method_bit x}) r))"
          from "1.IH" [OF nosucc Some Returns this] show ?thesis by simp
        qed
      qed
    qed
  qed
qed

lemma auth_loop_distinct: "distinct (map snd (fst (auth_loop e opts l ret)))"
proof (induction e opts l ret rule: auth_loop.induct)
  case (1 e opts l ret_auth)
  show ?case
  proof (cases "ret_auth = SSH_AUTH_SUCCESS")
    case True
    then show ?thesis by (simp add: auth_loop.simps)
  next
    case nosucc: False
    show ?thesis
    proof (cases "select_auth opts l")
      case None
      with nosucc show ?thesis by (simp add: auth_loop.simps)
    next
      case (Some x)
      show ?thesis
      proof (cases "attempt e opts x ret_auth")
        case Faults
        with nosucc Some show ?thesis by (simp add: auth_loop_step)
      next
        case (Returns r)
        have "x \<notin> snd ` set (fst (auth_loop e opts (l - {method_bit x}) r))"
          using auth_loop_tried_offered [of x e opts "l - {method_bit x}" r]
          by blast
        with "1.IH" [OF nosucc Some Returns] nosucc Some Returns show ?thesis
          by (simp add: auth_loop_step)
      qed
    qed
  qed
qed

lemma auth_loop_nothing_offered:
  "\<forall>b. method_bit b \<notin> l \<Longrightarrow> auth_loop e opts l ret = ([], Returns ret)"
proof -
  assume a: "\<forall>b. method_bit b \<notin> l"
  have "select_auth opts l = None"
    using a [rule_format, of NC_SSH_AUTH_INTERACTIVE] a [rule_format, of NC_SSH_AUTH_PASSWORD]
      a [rule_format, of NC_SSH_AUTH_PUBLICKEY]
    by (simp add: select_auth_def)
  then show ?thesis by (simp add: auth_loop.simps)
qed

lemma connect_rounds:
  "cr_rounds (connect_ssh_session_netconf e g hst) = [] \<or>
   cr_rounds (connect_ssh_session_netconf e g hst) =
     fst (auth_loop e (ssh_opts g) (remove_disabled (ssh_opts g) (userauth_list e)) (userauth_none e))"
  by (simp add: connect_ssh_session_netconf_def Let_def)

lemma connect_ok_authenticated:
  "cr_ret (connect_ssh_session_netconf e g hst) = Returns 0 \<Longrightarrow>
   snd (auth_loop e (ssh_opts g) (remove_disabled (ssh_opts g) (userauth_list e)) (userauth_none e))
     = Returns SSH_AUTH_SUCCESS"
  by (simp add: connect_ssh_session_netconf_def Let_def split: if_splits)

text \<open>
  What the loop of \<^verbatim>\<open>connect_ssh_session_netconf\<close> does hold to, with the preferences
  read from \<^verbatim>\<open>ssh_opts\<close>: every round tries a method that the server offers and that
  was not tried before, whose preference in \<^verbatim>\<open>ssh_opts\<close> is not negative and is at
  least the preference of every method still in the list; the list of a round is the list
  of the round before without the method tried there, starting from the server's list
  without the methods disabled in \<^verbatim>\<open>ssh_opts\<close>; no method is tried twice. The function
  returns 0 only when the loop ended with \<^verbatim>\<open>SSH_AUTH_SUCCESS\<close>; otherwise it returns -1
  or the process faults, and there is no channel.
\<close>

lemma auth_rounds_ranked_by_ssh_opts:
  "(\<forall>(l, a) \<in> set (cr_rounds (connect_ssh_session_netconf e g hst)).
       l \<subseteq> userauth_list e \<and> method_bit a \<in> l \<and> 0 \<le> pref_of (ssh_opts g) a
       \<and> (\<forall>b. method_bit b \<in> l \<longrightarrow> pref_of (ssh_opts g) b \<le> pref_of (ssh_opts g) a))
   \<and> (cr_rounds (connect_ssh_session_netconf e g hst) \<noteq> [] \<longrightarrow>
        chained (remove_disabled (ssh_opts g) (userauth_list e))
          (cr_rounds (connect_ssh_session_netconf e g hst)))
   \<and> distinct (map snd (cr_rounds (connect_ssh_session_netconf e g hst)))
   \<and> (cr_ret (connect_ssh_session_netconf e g hst) = Returns 0 \<longrightarrow>
        snd (auth_loop e (ssh_opts g) (remove_disabled (ssh_opts g) (userauth_list e))
               (userauth_none e)) = Returns SSH_AUTH_SUCCESS)
   \<and> (cr_ret (connect_ssh_session_netconf e g hst) \<noteq> Returns 0 \<longrightarrow>
        (cr_ret (connect_ssh_session_netconf e g hst) = Returns (- 1)
         \<or> cr_ret (connect_ssh_session_netconf e g hst) = Faults)
        \<and> cr_channel (connect_ssh_session_netconf e g hst) = None)
   \<and> ((\<forall>b. method_bit b \<notin> remove_disabled (ssh_opts g) (userauth_list e))
        \<and> userauth_none e \<noteq> SSH_AUTH_SUCCESS \<longrightarrow>
        cr_rounds (connect_ssh_session_netconf e g hst) = []
        \<and> cr_ret (connect_ssh_session_netconf e g hst) = Returns (- 1))"
proof -
  let ?r = "connect_ssh_session_netconf e g hst"
  let ?l0 = "remove_disabled (ssh_opts g) (userauth_list e)"
  let ?lp = "auth_loop e (ssh_opts g) ?l0 (userauth_none e)"
  have en: "\<forall>b. method_bit b \<in> ?l0 \<longrightarrow> 0 \<le> pref_of (ssh_opts g) b"
    using remove_disabled_enabled by blast
  have sub: "?l0 \<subseteq> userauth_list e"
    by (auto simp: remove_disabled_def Let_def)
  have rounds: "cr_rounds ?r = [] \<or> cr_rounds ?r = fst ?lp" by (rule connect_rounds)
  have c1: "\<forall>(l, a) \<in> set (cr_rounds ?r).
       l \<subseteq> userauth_list e \<and> method_bit a \<in> l \<and> 0 \<le> pref_of (ssh_opts g) a
       \<and> (\<forall>b. method_bit b \<in> l \<longrightarrow> pref_of (ssh_opts g) b \<le> pref_of (ssh_opts g) a)"
  proof (clarify)
    fix l a assume "(l, a) \<in> set (cr_rounds ?r)"
    with rounds have "(l, a) \<in> set (fst ?lp)" by auto
    from auth_loop_rounds [OF en this] sub
    show "l \<subseteq> userauth_list e \<and> method_bit a \<in> l \<and> 0 \<le> pref_of (ssh_opts g) a
       \<and> (\<forall>b. method_bit b \<in> l \<longrightarrow> pref_of (ssh_opts g) b \<le> pref_of (ssh_opts g) a)"
      by blast
  qed
  have c2: "cr_rounds ?r \<noteq> [] \<longrightarrow> chained ?l0 (cr_rounds ?r)"
    using rounds auth_loop_chained [of ?l0 e "ssh_opts g" "userauth_none e"] by auto
  have c3: "distinct (map snd (cr_rounds ?r))"
    using rounds auth_loop_distinct [of e "ssh_opts g" ?l0 "userauth_none e"] by auto
  have c4: "cr_ret ?r = Returns 0 \<longrightarrow> snd ?lp = Returns SSH_AUTH_SUCCESS"
    using connect_ok_authenticated by blast
  have c5: "cr_ret ?r \<noteq> Returns 0 \<longrightarrow>
      (cr_ret ?r = Returns (- 1) \<or> cr_ret ?r = Faults) \<and> cr_channel ?r = None"
    by (simp add: connect_ssh_session_netconf_def Let_def)
  have c6: "(\<forall>b. method_bit b \<notin> ?l0) \<and> userauth_none e \<noteq> SSH_AUTH_SUCCESS \<longrightarrow>
        cr_rounds ?r = [] \<and> cr_ret ?r = Returns (- 1)"
  proof (clarify)
    assume a: "\<forall>b. method_bit b \<notin> ?l0" and b: "userauth_none e \<noteq> SSH_AUTH_SUCCESS"
    have "?lp = ([], Returns (userauth_none e))" using a by (rule auth_loop_nothing_offered)
    with b show "cr_rounds ?r = [] \<and> cr_ret ?r = Returns (- 1)"
      by (simp add: connect_ssh_session_netconf_def Let_def)
  qed
  from c1 c2 c3 c4 c5 c6 show ?thesis by blast
qed

text \<open>
  Claim C5 fails where the caller's preferences are those of Call Home, and the code
  departs from it in two more runs.

  Call Home. The caller disables keyboard-interactive and password for Call Home with
  \<^verbatim>\<open>nc_client_ssh_ch_set_auth_pref\<close>, and \<^verbatim>\<open>nc_client_ssh_ch_get_auth_pref\<close> answers -1
  for both. \<^verbatim>\<open>nc_accept_callhome_sock_ssh\<close> then tries keyboard-interactive first and
  password second, and the session is made with the password: the loop reads
  \<^verbatim>\<open>ssh_opts\<close>, where the two have the preferences 3 and 2, and never \<^verbatim>\<open>ssh_ch_opts\<close>.

  Preference 0. The caller sets the password to preference 0 and disables the other
  two methods. The password method is enabled and offered, and the server would accept
  the password, but no round is made and the function returns -1: the comparison with
  the initial \<^verbatim>\<open>pref = 0\<close> is strict. Keyboard-interactive with preference 0 and the
  others disabled is tried.

  No terminal. The password prompt returns \<^verbatim>\<open>NULL\<close> and the server denies: the process
  faults in the password round, before the public key, enabled and offered, is tried,
  and the connect function does not return.
\<close>

theorem auth_ignores_callhome_preferences:
  "sint (nc_client_ssh_ch_get_auth_pref NC_SSH_AUTH_INTERACTIVE ch_disabled_globals) = - 1
   \<and> sint (nc_client_ssh_ch_get_auth_pref NC_SSH_AUTH_PASSWORD ch_disabled_globals) = - 1
   \<and> userauths (snd (snd (nc_accept_callhome_sock_ssh sample_env ch_disabled_globals Map.empty
                              5 ''device'' 4334 None)))
       = [NC_SSH_AUTH_INTERACTIVE, NC_SSH_AUTH_PASSWORD]
   \<and> fst (nc_accept_callhome_sock_ssh sample_env ch_disabled_globals Map.empty
            5 ''device'' 4334 None) = Some 1
   \<and> sint (nc_client_ssh_get_auth_pref NC_SSH_AUTH_PASSWORD password_zero_globals) = 0
   \<and> remove_disabled (ssh_opts password_zero_globals) (userauth_list sample_env)
       = {SSH_AUTH_METHOD_PASSWORD}
   \<and> userauth_password sample_env = SSH_AUTH_SUCCESS
   \<and> cr_rounds (connect_ssh_session_netconf sample_env password_zero_globals ''device'') = []
   \<and> cr_ret (connect_ssh_session_netconf sample_env password_zero_globals ''device'')
       = Returns (- 1)
   \<and> userauths (snd (snd (nc_connect_ssh sample_env password_zero_globals Map.empty
                              (Some ''device'') 830 None))) = []
   \<and> fst (nc_connect_ssh sample_env password_zero_globals Map.empty (Some ''device'') 830 None)
       = None
   \<and> sint (nc_client_ssh_get_auth_pref NC_SSH_AUTH_INTERACTIVE interactive_zero_globals) = 0
   \<and> map snd (cr_rounds (connect_ssh_session_netconf sample_env interactive_zero_globals
                            ''device'')) = [NC_SSH_AUTH_INTERACTIVE]
   \<and> map snd (cr_rounds (connect_ssh_session_netconf
                  (sample_env\<lparr>password_prompt := None, userauth_password := SSH_AUTH_DENIED\<rparr>)
                  init_globals ''device''))
       = [NC_SSH_AUTH_INTERACTIVE, NC_SSH_AUTH_PASSWORD]
   \<and> cr_ret (connect_ssh_session_netconf
               (sample_env\<lparr>password_prompt := None, userauth_password := SSH_AUTH_DENIED\<rparr>)
               init_globals ''device'') = Faults
   \<and> nc_connect_ssh (sample_env\<lparr>password_prompt := None, userauth_password := SSH_AUTH_DENIED\<rparr>)
        init_globals Map.empty (Some ''device'') 830 None
       = faulted Map.empty
           [Status_set 1 NC_STATUS_STARTING,
            Options_set SSH_OPTIONS_HOST (Str ''device''),
            Options_set SSH_OPTIONS_PORT (Port 830),
            Options_set SSH_OPTIONS_USER (Str ''admin''),
            Options_set SSH_OPTIONS_TIMEOUT (Num NC_SSH_TIMEOUT),
            Options_set SSH_OPTIONS_HOSTKEYS (Str hostkeys_rich),
            Sock_connect ''device'' 830,
            Options_set SSH_OPTIONS_FD (Num 5),
            Userauth NC_SSH_AUTH_INTERACTIVE, Userauth NC_SSH_AUTH_PASSWORD]"
  by (simp add: run_simps libssh_simps ch_disabled_globals_def password_zero_globals_def
      interactive_zero_globals_def nc_client_ssh_ch_get_auth_pref_def
      nc_client_ssh_get_auth_pref_def nc_client_ssh_get_auth_pref_opts_def
      nc_client_ssh_ch_set_auth_pref_def nc_client_ssh_set_auth_pref_def
      nc_client_ssh_set_auth_pref_opts_def set_pref_value_def set_hostkeys_def insert_Diff_if)

section \<open>Sessions on one SSH connection\<close>

lemma reaches_trans: "reaches h a b \<Longrightarrow> reaches h b c \<Longrightarrow> reaches h a c"
  by (induction rule: reaches.induct) (auto intro: reaches.intros)

lemma path_frame:
  "\<forall>x \<in> set (a # xs). next_of h' x = next_of h x \<Longrightarrow> path h' a xs b = path h a xs b"
  by (induction xs arbitrary: a) auto

lemma path_allocated: "path h a xs b \<Longrightarrow> x \<in> set (a # xs) \<Longrightarrow> h x \<noteq> None"
  by (induction xs arbitrary: a) (auto simp: next_of_def split: option.splits)

lemma path_reaches_end: "path h a xs b \<Longrightarrow> x \<in> set (a # xs) \<Longrightarrow> reaches h x b"
proof (induction xs arbitrary: a x)
  case Nil
  then show ?case by (auto intro: reaches.intros)
next
  case (Cons y ys)
  then show ?case by (auto intro: reaches.intros)
qed

lemma path_reaches_from_start: "path h a xs b \<Longrightarrow> y \<in> set (a # xs) \<Longrightarrow> reaches h a y"
proof (induction xs arbitrary: a y)
  case Nil
  then show ?case by (auto intro: reaches.intros)
next
  case (Cons z zs)
  then show ?case by (auto intro: reaches.intros)
qed

lemma ring_reaches:
  assumes "ring h xs" and "x \<in> set xs" and "y \<in> set xs"
  shows "reaches h x y"
proof -
  from assms(1) obtain a ys where xs: "xs = a # ys" and p: "path h a ys a"
    by (auto simp: ring_def split: list.splits)
  from p assms(2) xs have "reaches h x a" by (auto intro: path_reaches_end)
  moreover from p assms(3) xs have "reaches h a y" by (auto intro: path_reaches_from_start)
  ultimately show ?thesis by (rule reaches_trans)
qed

lemma channel_success:
  assumes "nc_connect_ssh_channel e h (Some sa) ctx_arg = (Some n, h', ev)"
    and "h sa = Some sess"
  shows "\<exists>s1. h' = h(sa \<mapsto> sess\<lparr>libssh_next := Some n\<rparr>,
                     n \<mapsto> s1\<lparr>libssh_next :=
                              Some (case libssh_next sess of None \<Rightarrow> sa | Some ptr \<Rightarrow> ptr)\<rparr>)
             \<and> ti_lock s1 = ti_lock sess \<and> libssh_session s1 = libssh_session sess"
  using assms
  by (auto simp: nc_connect_ssh_channel_def Let_def fail_free_def handshake_ok_fields
      calloc_nc_session_def split: option.splits if_splits)


text \<open>
  Claim C6. Let \<^verbatim>\<open>nc_connect_ssh_channel(session, ctx)\<close> return a new session, at an
  address that was not in use, and let the argument session have no sibling or be a
  member of a ring with the siblings \<open>xs\<close>. Then the new session has the transport lock
  and the SSH session of the argument; the argument only has its link changed; every
  other session is untouched; the argument, the new session and the earlier siblings
  form a ring through \<^verbatim>\<open>ti.libssh.next\<close>, the new session right behind the argument; and
  every member of the ring is reachable from every other along the links.
\<close>

theorem channel_joins_ring:
  assumes ok: "nc_connect_ssh_channel e h (Some sa) ctx_arg = (Some n, h', ev)"
    and sess: "h sa = Some sess"
    and fresh: "h n = None"
    and sib: "libssh_next sess = None \<and> xs = [] \<or> ring h (sa # xs)"
  shows "(\<exists>ns. h' n = Some ns \<and> ti_lock ns = ti_lock sess
               \<and> libssh_session ns = libssh_session sess)
       \<and> h' sa = Some (sess\<lparr>libssh_next := Some n\<rparr>)
       \<and> (\<forall>x. x \<noteq> sa \<and> x \<noteq> n \<longrightarrow> h' x = h x)
       \<and> ring h' (sa # n # xs)
       \<and> (\<forall>x \<in> set (sa # n # xs). \<forall>y \<in> set (sa # n # xs). reaches h' x y)"
proof -
  let ?p = "case libssh_next sess of None \<Rightarrow> sa | Some ptr \<Rightarrow> ptr"
  from channel_success [OF ok sess] obtain s1 where
    h': "h' = h(sa \<mapsto> sess\<lparr>libssh_next := Some n\<rparr>, n \<mapsto> s1\<lparr>libssh_next := Some ?p\<rparr>)"
    and lk: "ti_lock s1 = ti_lock sess" and ss: "libssh_session s1 = libssh_session sess"
    by blast
  have ne: "sa \<noteq> n" using sess fresh by auto
  have new: "\<exists>ns. h' n = Some ns \<and> ti_lock ns = ti_lock sess
               \<and> libssh_session ns = libssh_session sess"
    using lk ss by (simp add: h')
  have old: "h' sa = Some (sess\<lparr>libssh_next := Some n\<rparr>)"
    using ne by (simp add: h')
  have frame: "\<forall>x. x \<noteq> sa \<and> x \<noteq> n \<longrightarrow> h' x = h x"
    by (simp add: h')
  have nx_sa: "next_of h' sa = Some n" using ne by (simp add: h' next_of_def)
  have nx_n: "next_of h' n = Some ?p" by (simp add: h' next_of_def)
  have nx_frame: "x \<noteq> sa \<Longrightarrow> x \<noteq> n \<Longrightarrow> next_of h' x = next_of h x" for x
    by (simp add: h' next_of_def)
  have rg: "ring h' (sa # n # xs)"
    using sib
  proof
    assume a: "libssh_next sess = None \<and> xs = []"
    then show ?thesis using ne nx_sa nx_n by (simp add: ring_def)
  next
    assume r: "ring h (sa # xs)"
    then have d: "distinct (sa # xs)" and p: "path h sa xs sa"
      by (simp_all add: ring_def)
    have alloc: "\<forall>x \<in> set (sa # xs). h x \<noteq> None"
      using p path_allocated by blast
    have nin: "n \<notin> set (sa # xs)" using alloc fresh by auto
    have d': "distinct (sa # n # xs)" using d nin by auto
    have "path h' n xs sa"
    proof (cases xs)
      case Nil
      with p have "libssh_next sess = Some sa" using sess by (simp add: next_of_def)
      with nx_n Nil show ?thesis by simp
    next
      case (Cons y ys)
      with p have ny: "next_of h sa = Some y" and py: "path h y ys sa" by simp_all
      from ny sess have "libssh_next sess = Some y" by (simp add: next_of_def)
      with nx_n have n1: "next_of h' n = Some y" by simp
      have "\<forall>x \<in> set (y # ys). next_of h' x = next_of h x"
      proof
        fix x assume "x \<in> set (y # ys)"
        then have "x \<noteq> sa" "x \<noteq> n" using d nin Cons by auto
        then show "next_of h' x = next_of h x" by (rule nx_frame)
      qed
      then have "path h' y ys sa = path h y ys sa" by (rule path_frame)
      with py n1 Cons show ?thesis by simp
    qed
    with nx_sa d' show ?thesis by (simp add: ring_def)
  qed
  have rch: "\<forall>x \<in> set (sa # n # xs). \<forall>y \<in> set (sa # n # xs). reaches h' x y"
    using ring_reaches [OF rg] by blast
  from new old frame rg rch show ?thesis by blast
qed


theorem channel_joins_ring_witness:
  "ring (fst (snd (nc_connect_ssh_channel (sample_env\<lparr>calloc_session := Some 9\<rparr>)
           [1 \<mapsto> calloc_nc_session\<lparr>ti_lock := Some 2, libssh_session := Some 3,
                                     libssh_next := Some 8\<rparr>,
            8 \<mapsto> calloc_nc_session\<lparr>ti_lock := Some 2, libssh_session := Some 3,
                                     libssh_next := Some 1\<rparr>]
           (Some 1) None)))
        [1, 9, 8]
   \<and> reaches (fst (snd (nc_connect_ssh_channel (sample_env\<lparr>calloc_session := Some 9\<rparr>)
           [1 \<mapsto> calloc_nc_session\<lparr>ti_lock := Some 2, libssh_session := Some 3,
                                     libssh_next := Some 8\<rparr>,
            8 \<mapsto> calloc_nc_session\<lparr>ti_lock := Some 2, libssh_session := Some 3,
                                     libssh_next := Some 1\<rparr>]
           (Some 1) None)))
        8 9"
proof -
  let ?e = "sample_env\<lparr>calloc_session := Some 9\<rparr>"
  let ?p = "calloc_nc_session\<lparr>ti_lock := Some 2, libssh_session := Some 3,
                               libssh_next := Some 8\<rparr>"
  let ?q = "calloc_nc_session\<lparr>ti_lock := Some 2, libssh_session := Some 3,
                               libssh_next := Some 1\<rparr>"
  let ?h = "[1 \<mapsto> ?p, 8 \<mapsto> ?q] :: heap"
  let ?r = "nc_connect_ssh_channel ?e ?h (Some 1) None"
  have "fst ?r = Some 9"
    by (simp add: nc_connect_ssh_channel_def run_simps)
  then have ok: "?r = (Some 9, fst (snd ?r), snd (snd ?r))"
    by (metis prod.collapse)
  have sess: "?h 1 = Some ?p" by simp
  have fresh: "?h 9 = None" by simp
  have sib: "libssh_next ?p = None \<and> [8] = [] \<or> ring ?h (1 # [8])"
    by (simp add: ring_def next_of_def)
  from channel_joins_ring [OF ok sess fresh sib]
  have "ring (fst (snd ?r)) [1, 9, 8]"
    and "\<forall>x \<in> set [1, 9, 8]. \<forall>y \<in> set [1, 9, 8]. reaches (fst (snd ?r)) x y"
    by blast+
  then show ?thesis by simp
qed
section \<open>The host key algorithms\<close>

lemma nc_connect_ssh_hostkeys:
  "hostkeys_set (snd (snd (nc_connect_ssh e g h host_arg port_arg ctx_arg))) = []
   \<and> fst (nc_connect_ssh e g h host_arg port_arg ctx_arg) = None
   \<or> hostkeys_set (snd (snd (nc_connect_ssh e g h host_arg port_arg ctx_arg)))
       = hostkeys_set (set_hostkeys e)"
  by (simp add: nc_connect_ssh_def Let_def fail_free_def faulted_def trace_simps
      split: option.splits)

lemma nc_connect_ssh_hostkeys_exact:
  "hostkeys_set (snd (snd (nc_connect_ssh e g h host_arg port_arg ctx_arg)))
     = (if default_username e (ssh_opts g) \<noteq> None \<and> calloc_session e \<noteq> None
           \<and> malloc_lock e \<noteq> None \<and> ssh_new e \<noteq> None
        then hostkeys_set (set_hostkeys e) else [])"
  by (simp add: nc_connect_ssh_def Let_def fail_free_def faulted_def trace_simps
      split: option.splits)

lemma nc_connect_libssh_hostkeys:
  "hostkeys_set (snd (snd (nc_connect_libssh e g h ss ctx_arg))) = []"
  by (simp add: nc_connect_libssh_def Let_def fail_free_def faulted_def trace_simps
      host_block_silent auth_block_silent split: option.splits)

lemma nc_accept_callhome_hostkeys:
  "hostkeys_set (snd (snd (nc_accept_callhome_sock_ssh e g h sock host_arg port_arg ctx_arg))) = []
   \<and> fst (nc_accept_callhome_sock_ssh e g h sock host_arg port_arg ctx_arg) = None
   \<or> hostkeys_set (snd (snd (nc_accept_callhome_sock_ssh e g h sock host_arg port_arg ctx_arg)))
       = hostkeys_set (set_hostkeys e)"
  by (simp add: nc_accept_callhome_sock_ssh_def Let_def trace_simps nc_connect_libssh_hostkeys
      split: option.splits)

lemma nc_accept_callhome_hostkeys_exact:
  "hostkeys_set (snd (snd (nc_accept_callhome_sock_ssh e g h sock host_arg port_arg ctx_arg)))
     = (if ssh_new e \<noteq> None \<and> default_username e (ssh_ch_opts g) \<noteq> None
        then hostkeys_set (set_hostkeys e) else [])"
  by (simp add: nc_accept_callhome_sock_ssh_def Let_def trace_simps nc_connect_libssh_hostkeys
      split: option.splits)

lemma rich_not_reduced: "hostkeys_rich \<noteq> hostkeys_reduced"
  by (simp add: hostkeys_rich_def hostkeys_reduced_def)

text \<open>
  Claim C7. \<^verbatim>\<open>nc_connect_ssh\<close> sets the host key algorithms as soon as it has a user
  name, the session structure, the lock and the SSH session, and
  \<^verbatim>\<open>nc_accept_callhome_sock_ssh\<close> as soon as it has the SSH session and a user name;
  before that neither sets any. What they set then is the same in both: the richer list
  with the ECDSA algorithms first, and after it the reduced list exactly when setting the
  richer list returned non-zero, which is how \<^verbatim>\<open>ssh_options_set\<close> reports an error.
  So the lists that are set are none, the richer one alone, or the richer and then the
  reduced one, and a call that returns a session has set the richer list first.
\<close>

theorem hostkeys_rich_first:
  "hostkeys_set (snd (snd (nc_connect_ssh e g h host_arg port_arg ctx_arg)))
     = (if default_username e (ssh_opts g) \<noteq> None \<and> calloc_session e \<noteq> None
           \<and> malloc_lock e \<noteq> None \<and> ssh_new e \<noteq> None
        then if hostkeys_set_ret e \<noteq> 0 then [Str hostkeys_rich, Str hostkeys_reduced]
             else [Str hostkeys_rich]
        else [])
   \<and> hostkeys_set (snd (snd (nc_accept_callhome_sock_ssh e g h sock host_ch port_ch ctx_arg)))
     = (if ssh_new e \<noteq> None \<and> default_username e (ssh_ch_opts g) \<noteq> None
        then if hostkeys_set_ret e \<noteq> 0 then [Str hostkeys_rich, Str hostkeys_reduced]
             else [Str hostkeys_rich]
        else [])
   \<and> (\<forall>ks \<in> {hostkeys_set (snd (snd (nc_connect_ssh e g h host_arg port_arg ctx_arg))),
            hostkeys_set (snd (snd (nc_accept_callhome_sock_ssh e g h sock host_ch port_ch ctx_arg)))}.
      (ks = [] \<or> ks = [Str hostkeys_rich] \<or> ks = [Str hostkeys_rich, Str hostkeys_reduced])
      \<and> (Str hostkeys_reduced \<in> set ks \<longrightarrow> hostkeys_set_ret e \<noteq> 0)
      \<and> (ks \<noteq> [] \<and> hostkeys_set_ret e \<noteq> 0 \<longrightarrow> Str hostkeys_reduced \<in> set ks))
   \<and> (fst (nc_connect_ssh e g h host_arg port_arg ctx_arg) \<noteq> None \<longrightarrow>
        hostkeys_set (snd (snd (nc_connect_ssh e g h host_arg port_arg ctx_arg))) \<noteq> [])
   \<and> (fst (nc_accept_callhome_sock_ssh e g h sock host_ch port_ch ctx_arg) \<noteq> None \<longrightarrow>
        hostkeys_set (snd (snd (nc_accept_callhome_sock_ssh e g h sock host_ch port_ch ctx_arg))) \<noteq> [])
   \<and> hostkeys_rich \<noteq> hostkeys_reduced"
proof -
  have a: "hostkeys_set (snd (snd (nc_connect_ssh e g h host_arg port_arg ctx_arg)))
     = (if default_username e (ssh_opts g) \<noteq> None \<and> calloc_session e \<noteq> None
           \<and> malloc_lock e \<noteq> None \<and> ssh_new e \<noteq> None
        then if hostkeys_set_ret e \<noteq> 0 then [Str hostkeys_rich, Str hostkeys_reduced]
             else [Str hostkeys_rich]
        else [])"
    by (simp add: nc_connect_ssh_hostkeys_exact set_hostkeys_cases)
  have b: "hostkeys_set (snd (snd (nc_accept_callhome_sock_ssh e g h sock host_ch port_ch ctx_arg)))
     = (if ssh_new e \<noteq> None \<and> default_username e (ssh_ch_opts g) \<noteq> None
        then if hostkeys_set_ret e \<noteq> 0 then [Str hostkeys_rich, Str hostkeys_reduced]
             else [Str hostkeys_rich]
        else [])"
    by (simp add: nc_accept_callhome_hostkeys_exact set_hostkeys_cases)
  have c: "(\<forall>ks \<in> {hostkeys_set (snd (snd (nc_connect_ssh e g h host_arg port_arg ctx_arg))),
            hostkeys_set (snd (snd (nc_accept_callhome_sock_ssh e g h sock host_ch port_ch ctx_arg)))}.
      (ks = [] \<or> ks = [Str hostkeys_rich] \<or> ks = [Str hostkeys_rich, Str hostkeys_reduced])
      \<and> (Str hostkeys_reduced \<in> set ks \<longrightarrow> hostkeys_set_ret e \<noteq> 0)
      \<and> (ks \<noteq> [] \<and> hostkeys_set_ret e \<noteq> 0 \<longrightarrow> Str hostkeys_reduced \<in> set ks))
   \<and> (fst (nc_connect_ssh e g h host_arg port_arg ctx_arg) \<noteq> None \<longrightarrow>
        hostkeys_set (snd (snd (nc_connect_ssh e g h host_arg port_arg ctx_arg))) \<noteq> [])
   \<and> (fst (nc_accept_callhome_sock_ssh e g h sock host_ch port_ch ctx_arg) \<noteq> None \<longrightarrow>
        hostkeys_set (snd (snd (nc_accept_callhome_sock_ssh e g h sock host_ch port_ch ctx_arg))) \<noteq> [])
   \<and> hostkeys_rich \<noteq> hostkeys_reduced"
    using nc_connect_ssh_hostkeys [of e g h host_arg port_arg ctx_arg]
      nc_accept_callhome_hostkeys [of e g h sock host_ch port_ch ctx_arg]
      rich_not_reduced
    by (auto simp: set_hostkeys_cases split: if_splits)
  from a b c show ?thesis by blast
qed

text \<open>
  The theorem at a run where setting the richer list fails: both functions return a
  session, \<^verbatim>\<open>nc_accept_callhome_sock_ssh\<close> on the accepted socket 5, and both have set
  the richer list and then the reduced one.
\<close>

theorem hostkeys_rich_first_witness:
  "fst (nc_connect_ssh (sample_env\<lparr>hostkeys_set_ret := - 1\<rparr>) init_globals Map.empty
          (Some ''device'') 830 None) = Some 1
   \<and> hostkeys_set (snd (snd (nc_connect_ssh (sample_env\<lparr>hostkeys_set_ret := - 1\<rparr>) init_globals
          Map.empty (Some ''device'') 830 None)))
       = [Str hostkeys_rich, Str hostkeys_reduced]
   \<and> fst (nc_accept_callhome_sock_ssh (sample_env\<lparr>hostkeys_set_ret := - 1\<rparr>) init_globals
          Map.empty 5 ''device'' 4334 None) = Some 1
   \<and> hostkeys_set (snd (snd (nc_accept_callhome_sock_ssh (sample_env\<lparr>hostkeys_set_ret := - 1\<rparr>)
          init_globals Map.empty 5 ''device'' 4334 None)))
       = [Str hostkeys_rich, Str hostkeys_reduced]
   \<and> hostkeys_set_ret (sample_env\<lparr>hostkeys_set_ret := - 1\<rparr>) \<noteq> 0"
proof -
  let ?e = "sample_env\<lparr>hostkeys_set_ret := - 1\<rparr>"
  let ?r = "nc_connect_ssh ?e init_globals Map.empty (Some ''device'') 830 None"
  let ?c = "nc_accept_callhome_sock_ssh ?e init_globals Map.empty 5 ''device'' 4334 None"
  note h = hostkeys_rich_first [of ?e init_globals Map.empty "Some ''device''" 830 None
      5 "''device''" 4334]
  have ok: "fst ?r = Some 1"
    by (simp add: run_simps)
  have okc: "fst ?c = Some 1"
    by (simp add: run_simps libssh_simps)
  have nz: "hostkeys_set_ret ?e \<noteq> 0" by (simp add: sample_env_def)
  have got: "default_username ?e (ssh_opts init_globals) \<noteq> None \<and> calloc_session ?e \<noteq> None
      \<and> malloc_lock ?e \<noteq> None \<and> ssh_new ?e \<noteq> None"
    by (simp add: sample_simps default_username_def)
  have gotc: "ssh_new ?e \<noteq> None \<and> default_username ?e (ssh_ch_opts init_globals) \<noteq> None"
    by (simp add: sample_simps default_username_def)
  from h have "hostkeys_set (snd (snd ?r))
     = (if default_username ?e (ssh_opts init_globals) \<noteq> None \<and> calloc_session ?e \<noteq> None
           \<and> malloc_lock ?e \<noteq> None \<and> ssh_new ?e \<noteq> None
        then if hostkeys_set_ret ?e \<noteq> 0 then [Str hostkeys_rich, Str hostkeys_reduced]
             else [Str hostkeys_rich]
        else [])"
    by blast
  with got nz have r: "hostkeys_set (snd (snd ?r)) = [Str hostkeys_rich, Str hostkeys_reduced]"
    by presburger
  from h have "hostkeys_set (snd (snd ?c))
     = (if ssh_new ?e \<noteq> None \<and> default_username ?e (ssh_ch_opts init_globals) \<noteq> None
        then if hostkeys_set_ret ?e \<noteq> 0 then [Str hostkeys_rich, Str hostkeys_reduced]
             else [Str hostkeys_rich]
        else [])"
    by blast
  with gotc nz have c: "hostkeys_set (snd (snd ?c)) = [Str hostkeys_rich, Str hostkeys_reduced]"
    by presburger
  from ok okc r c nz show ?thesis by blast
qed

section \<open>Default host and port\<close>

lemma nc_connect_ssh_sock:
  "sock_connects (snd (snd (nc_connect_ssh e g h host_arg port_arg ctx_arg))) = []
   \<and> fst (nc_connect_ssh e g h host_arg port_arg ctx_arg) = None
   \<or> sock_connects (snd (snd (nc_connect_ssh e g h host_arg port_arg ctx_arg)))
       = [(effective_host host_arg, effective_port port_arg)]"
  by (simp add: nc_connect_ssh_def Let_def fail_free_def faulted_def trace_simps split: option.splits)

lemma nc_connect_ssh_stored:
  "nc_connect_ssh e g h host_arg port_arg ctx_arg = (Some a, h', ev) \<Longrightarrow>
   \<exists>s. h' a = Some s \<and> host s = Some (effective_host host_arg)
        \<and> port s = effective_port port_arg
        \<and> Options_set SSH_OPTIONS_HOST (Str (effective_host host_arg)) \<in> set ev
        \<and> Options_set SSH_OPTIONS_PORT (Port (effective_port port_arg)) \<in> set ev"
  by (auto simp: nc_connect_ssh_def Let_def fail_free_def faulted_def split: option.splits if_splits)

lemma effective_host_cases:
  "effective_host None = ''localhost''" "effective_host (Some []) = ''localhost''"
  "s \<noteq> [] \<Longrightarrow> effective_host (Some s) = s"
  by (simp_all add: effective_host_def strisempty_def)

lemma effective_port_cases:
  "effective_port 0 = 830" "p \<noteq> 0 \<Longrightarrow> effective_port p = p"
  by (simp_all add: effective_port_def NC_PORT_SSH_def)

text \<open>
  Claim C8. \<^verbatim>\<open>nc_connect_ssh(host, port, ctx)\<close> uses port 830 when \<open>port\<close> is 0 and the
  host \<^verbatim>\<open>localhost\<close> when \<open>host\<close> is \<^verbatim>\<open>NULL\<close> or empty, and the arguments as they are
  otherwise: the only socket it connects goes to that host and port; a call that returns
  a session has connected exactly one socket there, has set the SSH options host and
  port to them, and has stored them in the session.
\<close>

theorem nc_connect_ssh_defaults:
  "(port_arg = 0 \<longrightarrow> effective_port port_arg = 830)
   \<and> (port_arg \<noteq> 0 \<longrightarrow> effective_port port_arg = port_arg)
   \<and> (host_arg = None \<or> host_arg = Some [] \<longrightarrow> effective_host host_arg = ''localhost'')
   \<and> (\<forall>s. host_arg = Some s \<and> s \<noteq> [] \<longrightarrow> effective_host host_arg = s)
   \<and> set (sock_connects (snd (snd (nc_connect_ssh e g h host_arg port_arg ctx_arg))))
        \<subseteq> {(effective_host host_arg, effective_port port_arg)}
   \<and> (\<forall>a h' ev. nc_connect_ssh e g h host_arg port_arg ctx_arg = (Some a, h', ev) \<longrightarrow>
        sock_connects ev = [(effective_host host_arg, effective_port port_arg)]
        \<and> Options_set SSH_OPTIONS_HOST (Str (effective_host host_arg)) \<in> set ev
        \<and> Options_set SSH_OPTIONS_PORT (Port (effective_port port_arg)) \<in> set ev
        \<and> (\<exists>s. h' a = Some s \<and> host s = Some (effective_host host_arg)
                \<and> port s = effective_port port_arg))"
proof -
  have a: "set (sock_connects (snd (snd (nc_connect_ssh e g h host_arg port_arg ctx_arg))))
        \<subseteq> {(effective_host host_arg, effective_port port_arg)}"
    using nc_connect_ssh_sock [of e g h host_arg port_arg ctx_arg] by auto
  have b: "sock_connects ev = [(effective_host host_arg, effective_port port_arg)]
        \<and> Options_set SSH_OPTIONS_HOST (Str (effective_host host_arg)) \<in> set ev
        \<and> Options_set SSH_OPTIONS_PORT (Port (effective_port port_arg)) \<in> set ev
        \<and> (\<exists>s. h' a = Some s \<and> host s = Some (effective_host host_arg)
                \<and> port s = effective_port port_arg)"
    if "nc_connect_ssh e g h host_arg port_arg ctx_arg = (Some a, h', ev)" for a h' ev
    using that nc_connect_ssh_sock [of e g h host_arg port_arg ctx_arg]
      nc_connect_ssh_stored [OF that] by auto
  show ?thesis
    using a b effective_host_cases effective_port_cases by (auto simp del: subset_insertI)
qed

theorem nc_connect_ssh_defaults_witness:
  "sock_connects (snd (snd (nc_connect_ssh sample_env init_globals Map.empty None 0 None)))
     = [(''localhost'', 830)]
   \<and> set (sock_connects (snd (snd (nc_connect_ssh sample_env init_globals Map.empty
        (Some ''device'') 22 None)))) \<subseteq> {(''device'', 22)}"
proof -
  let ?r = "nc_connect_ssh sample_env init_globals Map.empty None 0 None"
  note h = nc_connect_ssh_defaults [of 0 None sample_env init_globals Map.empty None]
  note h2 = nc_connect_ssh_defaults [of 22 "Some ''device''" sample_env init_globals Map.empty None]
  have ok: "fst ?r = Some 1"
    by (simp add: sample_simps sshauth_hostkey_check_def
      connect_ssh_session_netconf_def Let_def SSH_OK_def auth_loop.simps select_auth_def
      remove_disabled_def nc_connect_ssh_def default_username_def fail_free_def faulted_def
      ctx_and_handshake_def nc_handshake_def nc_handshake_result_def negotiate_version_def
      base_1_0_def base_1_1_def)
  then have eq: "?r = (Some 1, fst (snd ?r), snd (snd ?r))"
    by (metis prod.collapse)
  from h eq have "sock_connects (snd (snd ?r)) = [(effective_host None, effective_port 0)]"
    by blast
  moreover from h have "effective_host None = ''localhost''" "effective_port 0 = 830"
    by simp_all
  ultimately have a: "sock_connects (snd (snd ?r)) = [(''localhost'', 830)]" by simp
  from h2 have "effective_host (Some ''device'') = ''device''"
    "effective_port 22 = (22 :: 16 word)" by simp_all
  with h2 have b: "set (sock_connects (snd (snd (nc_connect_ssh sample_env init_globals Map.empty
        (Some ''device'') 22 None)))) \<subseteq> {(''device'', 22)}"
    by simp
  from a b show ?thesis by blast
qed

end
